theory Spec2Isabelle
  imports Complex_Main "HOL-Library.Product_Lexorder"
begin

section \<open>Python values used by the matching core\<close>

text \<open>
  Python floats are modelled as real numbers and Python ints as integers.
  \<open>None\<close> is \<open>None\<close> of an option type. Exceptions are values of the
  type \<open>error\<close>; a function that can raise returns \<open>error + 'a\<close>.
\<close>

datatype error =
    KeyError
  | IndexError
  | TypeError
  | JSONDecodeError
  | HTTPError
  | MultipleResultsFound
  | ValidationError
  | ProviderError
  | ValueError string

text \<open>Truthiness of an optional float: \<open>None\<close> and \<open>0.0\<close> are falsy.\<close>

definition truthy :: "real option \<Rightarrow> bool" where
  "truthy x = (case x of None \<Rightarrow> False | Some v \<Rightarrow> v \<noteq> 0)"

text \<open>\<open>round(x, n)\<close>: to \<open>n\<close> decimals, a tie going to the even neighbour.\<close>

definition round_half_even :: "real \<Rightarrow> int" where
  "round_half_even x =
     (let f = \<lfloor>x\<rfloor>; d = x - of_int f
      in if d < 1 / 2 then f
         else if 1 / 2 < d then f + 1
         else if even f then f else f + 1)"

definition py_round :: "real \<Rightarrow> nat \<Rightarrow> real" where
  "py_round x n = of_int (round_half_even (x * 10 ^ n)) / 10 ^ n"

text \<open>\<open>xs[:n]\<close>; a negative \<open>n\<close> counts from the end.\<close>

definition slice_to :: "'a list \<Rightarrow> int \<Rightarrow> 'a list" where
  "slice_to xs n =
     (if 0 \<le> n then take (nat n) xs else take (length xs - nat (- n)) xs)"

text \<open>\<open>str.lower()\<close> on ASCII letters.\<close>

definition lower_char :: "char \<Rightarrow> char" where
  "lower_char c =
     (let n = of_char c :: nat in if 65 \<le> n \<and> n \<le> 90 then char_of (n + 32) else c)"

definition lower :: "string \<Rightarrow> string" where
  "lower s = map lower_char s"

text \<open>Zero-padded decimal of fixed width, as \<open>%04d\<close> and \<open>%02d\<close> print it.\<close>

definition digit_char :: "nat \<Rightarrow> char" where
  "digit_char n = ''0123456789'' ! (n mod 10)"

fun zpad :: "nat \<Rightarrow> nat \<Rightarrow> string" where
  "zpad 0 n = []"
| "zpad (Suc w) n = zpad w (n div 10) @ [digit_char n]"

fun nat_str :: "nat \<Rightarrow> string" where
  "nat_str n = (if n < 10 then [digit_char n] else nat_str (n div 10) @ [digit_char n])"

declare nat_str.simps [simp del]

definition int_str :: "int \<Rightarrow> string" where
  "int_str i = (if i < 0 then CHR ''-'' # nat_str (nat (- i)) else nat_str (nat i))"

section \<open>Dates and times of day\<close>

record date =
  year :: nat
  month :: nat
  day :: nat

record time_of_day =
  hour :: nat
  minute :: nat
  second :: nat
  microsecond :: nat

definition date_le :: "date \<Rightarrow> date \<Rightarrow> bool" where
  "date_le a b \<longleftrightarrow> (year a, month a, day a) \<le> (year b, month b, day b)"

definition time_key :: "time_of_day \<Rightarrow> nat \<times> nat \<times> nat \<times> nat" where
  "time_key t = (hour t, minute t, second t, microsecond t)"

definition time_le :: "time_of_day \<Rightarrow> time_of_day \<Rightarrow> bool" where
  "time_le a b \<longleftrightarrow> time_key a \<le> time_key b"

definition time_lt :: "time_of_day \<Rightarrow> time_of_day \<Rightarrow> bool" where
  "time_lt a b \<longleftrightarrow> time_key a < time_key b"

definition is_leap :: "nat \<Rightarrow> bool" where
  "is_leap y \<longleftrightarrow> y mod 4 = 0 \<and> (y mod 100 \<noteq> 0 \<or> y mod 400 = 0)"

definition days_before_year :: "nat \<Rightarrow> nat" where
  "days_before_year y = (let p = y - 1 in p * 365 + p div 4 - p div 100 + p div 400)"

definition days_in_month :: "nat \<Rightarrow> nat \<Rightarrow> nat" where
  "days_in_month y m =
     (if m = 2 then (if is_leap y then 29 else 28)
      else if m = 4 \<or> m = 6 \<or> m = 9 \<or> m = 11 then 30 else 31)"

definition days_before_month :: "nat \<Rightarrow> nat \<Rightarrow> nat" where
  "days_before_month y m = sum_list (map (days_in_month y) [1..<m])"

definition toordinal :: "date \<Rightarrow> nat" where
  "toordinal d = days_before_year (year d) + days_before_month (year d) (month d) + day d"

text \<open>\<open>date.weekday()\<close>: Monday is 0.\<close>

definition weekday :: "date \<Rightarrow> int" where
  "weekday d = int ((toordinal d + 6) mod 7)"

text \<open>\<open>str(date)\<close> and \<open>str(time)\<close>: the ISO formats.\<close>

definition date_str :: "date \<Rightarrow> string" where
  "date_str d = zpad 4 (year d) @ ''-'' @ zpad 2 (month d) @ ''-'' @ zpad 2 (day d)"

definition time_str :: "time_of_day \<Rightarrow> string" where
  "time_str t =
     zpad 2 (hour t) @ '':'' @ zpad 2 (minute t) @ '':'' @ zpad 2 (second t)
     @ (if microsecond t = 0 then [] else ''.'' @ zpad 6 (microsecond t))"

section \<open>Catalogue rows\<close>

datatype PriceBand = pb_budget | pb_mid | pb_premium | pb_luxury
datatype NoiseLevel = quiet | moderate | lively | loud

record Venue =
  v_id :: int
  v_name :: string
  v_address :: string
  v_city :: string
  v_lat :: "real option"
  v_lng :: "real option"
  v_cuisine :: "string option"
  v_vibe_tags :: "string option"
  v_description :: "string option"
  v_noise_level :: "NoiseLevel option"
  v_price_band :: "PriceBand option"
  v_is_active :: bool

section \<open>Geo prefilter\<close>

definition radians :: "real \<Rightarrow> real" where
  "radians x = x * pi / 180"

definition haversine_km :: "real \<Rightarrow> real \<Rightarrow> real \<Rightarrow> real \<Rightarrow> real" where
  "haversine_km lat1 lng1 lat2 lng2 =
     (let R = 6371;
          dlat = radians (lat2 - lat1);
          dlng = radians (lng2 - lng1);
          a = (sin (dlat / 2))\<^sup>2 + cos (radians lat1) * cos (radians lat2) * (sin (dlng / 2))\<^sup>2
      in R * 2 * arcsin (sqrt a))"

definition SPEED_KM_PER_MIN :: "(string \<times> real) list" where
  "SPEED_KM_PER_MIN = [(''walk'', 0.083), (''drive'', 0.5), (''transit'', 0.4)]"

definition SAFETY_FACTOR :: real where
  "SAFETY_FACTOR = 1.8"

definition max_radius_km :: "string \<Rightarrow> int \<Rightarrow> real" where
  "max_radius_km mode max_minutes =
     (case map_of SPEED_KM_PER_MIN mode of Some v \<Rightarrow> v | None \<Rightarrow> 0.5)
       * of_int max_minutes * SAFETY_FACTOR"

definition within_radius :: "real \<Rightarrow> real \<Rightarrow> real \<Rightarrow> Venue \<Rightarrow> bool" where
  "within_radius olat olng radius_km v =
     (case (v_lat v, v_lng v) of
        (Some vlat, Some vlng) \<Rightarrow> haversine_km olat olng vlat vlng \<le> radius_km
      | _ \<Rightarrow> False)"

definition prefilter_by_distance ::
  "Venue list \<Rightarrow> real \<Rightarrow> real \<Rightarrow> string \<Rightarrow> int \<Rightarrow> Venue list" where
  "prefilter_by_distance vs olat olng mode max_travel_min =
     (let radius_km = max_radius_km mode max_travel_min
      in filter (within_radius olat olng radius_km) vs)"

section \<open>Remaining rows, settings and schemas\<close>

record VenueSlot =
  vs_id :: int
  vs_venue_id :: int
  vs_weekday :: int
  vs_start_time :: time_of_day
  vs_end_time :: time_of_day
  vs_max_tables_for_two :: int
  vs_is_active :: bool

record VenueBlackout =
  vb_venue_id :: int
  vb_start_date :: date
  vb_end_date :: date

datatype BookingStatus = pending | confirmed | cancelled | refunded

record Booking =
  b_slot_id :: "int option"
  b_status :: BookingStatus
  b_booked_date :: string

type_synonym vector = "real list"

record VenueEmbedding =
  ve_venue_id :: int
  ve_embedding :: vector
  ve_source_text :: "string option"

record IntentEmbedding =
  ie_session_id :: "string option"
  ie_intent_text :: string
  ie_embedding :: vector
  ie_model_name :: string

text \<open>Instants (\<open>last_checked_at\<close>, the UTC clock) are seconds on one time line.\<close>

record TravelTimeCache =
  tc_origin_hash :: string
  tc_venue_id :: int
  tc_mode :: string
  tc_time_bucket :: string
  tc_travel_minutes :: real
  tc_last_checked_at :: int

record Settings =
  ROUTING_PROVIDER :: string
  TRAVEL_TIME_CACHE_TTL_HOURS :: int
  EMBEDDING_PROVIDER :: string
  EMBEDDING_MODEL :: string

datatype RelationshipStage = first_date | second_third | together
datatype Mood = romantic | cosy | buzzy | adventurous | chill
datatype EnergyLevel = low | medium | high
datatype BudgetBand = budget | mid | premium | luxury
datatype TravelMode = drive | walk | transit

fun RelationshipStage_value :: "RelationshipStage \<Rightarrow> string" where
  "RelationshipStage_value first_date = ''first_date''"
| "RelationshipStage_value second_third = ''second_third''"
| "RelationshipStage_value together = ''together''"

fun Mood_value :: "Mood \<Rightarrow> string" where
  "Mood_value romantic = ''romantic''"
| "Mood_value cosy = ''cosy''"
| "Mood_value buzzy = ''buzzy''"
| "Mood_value adventurous = ''adventurous''"
| "Mood_value chill = ''chill''"

fun EnergyLevel_value :: "EnergyLevel \<Rightarrow> string" where
  "EnergyLevel_value low = ''low''"
| "EnergyLevel_value medium = ''medium''"
| "EnergyLevel_value high = ''high''"

fun BudgetBand_value :: "BudgetBand \<Rightarrow> string" where
  "BudgetBand_value budget = ''budget''"
| "BudgetBand_value mid = ''mid''"
| "BudgetBand_value premium = ''premium''"
| "BudgetBand_value luxury = ''luxury''"

fun TravelMode_value :: "TravelMode \<Rightarrow> string" where
  "TravelMode_value drive = ''drive''"
| "TravelMode_value walk = ''walk''"
| "TravelMode_value transit = ''transit''"

fun NoiseLevel_value :: "NoiseLevel \<Rightarrow> string" where
  "NoiseLevel_value quiet = ''quiet''"
| "NoiseLevel_value moderate = ''moderate''"
| "NoiseLevel_value lively = ''lively''"
| "NoiseLevel_value loud = ''loud''"

fun PriceBand_value :: "PriceBand \<Rightarrow> string" where
  "PriceBand_value pb_budget = ''budget''"
| "PriceBand_value pb_mid = ''mid''"
| "PriceBand_value pb_premium = ''premium''"
| "PriceBand_value pb_luxury = ''luxury''"

record SuggestRequest =
  city :: string
  origin_lat :: "real option"
  origin_lng :: "real option"
  travel_mode :: TravelMode
  max_travel_minutes :: int
  date :: date
  time :: time_of_day
  stage :: RelationshipStage
  mood :: Mood
  energy :: EnergyLevel
  budget :: BudgetBand
  free_text :: "string option"
  top_n :: int
  session_id :: "string option"

text \<open>
  The request body before validation: a field that the client left out is \<open>None\<close>.
  \<open>parse_SuggestRequest\<close> applies the field declarations of \<open>SuggestRequest\<close>:
  the defaults, \<open>ge\<close>/\<open>le\<close> and \<open>max_length\<close>.
\<close>

record SuggestPayload =
  p_city :: "string option"
  p_origin_lat :: "real option"
  p_origin_lng :: "real option"
  p_travel_mode :: "TravelMode option"
  p_max_travel_minutes :: "int option"
  p_date :: "date option"
  p_time :: "time_of_day option"
  p_stage :: "RelationshipStage option"
  p_mood :: "Mood option"
  p_energy :: "EnergyLevel option"
  p_budget :: "BudgetBand option"
  p_free_text :: "string option"
  p_top_n :: "int option"
  p_session_id :: "string option"

definition default_to :: "'a \<Rightarrow> 'a option \<Rightarrow> 'a" where
  "default_to d x = (case x of None \<Rightarrow> d | Some v \<Rightarrow> v)"

definition parse_SuggestRequest :: "SuggestPayload \<Rightarrow> error + SuggestRequest" where
  "parse_SuggestRequest p =
     (case (p_city p, p_date p, p_time p) of
        (Some c, Some d, Some t) \<Rightarrow>
          (let mtm = default_to 45 (p_max_travel_minutes p);
               n = default_to 3 (p_top_n p)
           in if \<not> (5 \<le> mtm \<and> mtm \<le> 45) then Inl ValidationError
              else if \<not> (1 \<le> n \<and> n \<le> 10) then Inl ValidationError
              else if (case p_free_text p of None \<Rightarrow> False | Some ft \<Rightarrow> 300 < length ft)
                then Inl ValidationError
              else Inr \<lparr> city = c,
                         origin_lat = p_origin_lat p,
                         origin_lng = p_origin_lng p,
                         travel_mode = default_to drive (p_travel_mode p),
                         max_travel_minutes = mtm,
                         date = d,
                         time = t,
                         stage = default_to first_date (p_stage p),
                         mood = default_to romantic (p_mood p),
                         energy = default_to low (p_energy p),
                         budget = default_to mid (p_budget p),
                         free_text = p_free_text p,
                         top_n = n,
                         session_id = p_session_id p \<rparr>)
      | _ \<Rightarrow> Inl ValidationError)"

record VenueSuggestion =
  sg_venue_id :: int
  sg_name :: string
  sg_address :: string
  sg_city :: string
  sg_cuisine :: "string option"
  sg_vibe_tags :: "string option"
  sg_noise_level :: "string option"
  sg_price_band :: "string option"
  sg_description :: "string option"
  sg_lat :: "real option"
  sg_lng :: "real option"
  sg_travel_minutes :: "real option"
  sg_similarity_score :: real
  sg_load_factor :: real
  sg_final_score :: real
  sg_source_text :: "string option"

record SuggestResponse =
  count :: nat
  intent_text :: string
  suggestions :: "VenueSuggestion list"

record CandidateVenue =
  venue :: Venue
  travel_minutes :: "real option"

section \<open>JSON values and HTTP responses of the routing providers\<close>

datatype json =
    JNull
  | JBool bool
  | JNum real
  | JStr string
  | JArr "json list"
  | JObj "(string \<times> json) list"

text \<open>
  \<open>resp.json()\<close> either decodes the body or raises; \<open>body\<close> is its outcome.
\<close>

record response =
  status_code :: int
  body :: "error + json"

text \<open>\<open>x[key]\<close> for a string key: a dict looks the key up (the last duplicate of a
  decoded object wins); a list, a string, a number, a bool and \<open>None\<close> raise \<open>TypeError\<close>.\<close>

fun getitem_key :: "json \<Rightarrow> string \<Rightarrow> error + json" where
  "getitem_key (JObj kvs) k =
     (case map_of (rev kvs) k of None \<Rightarrow> Inl KeyError | Some v \<Rightarrow> Inr v)"
| "getitem_key _ k = Inl TypeError"

text \<open>\<open>x[0]\<close>: a decoded dict has string keys only, so the key 0 is missing.\<close>

fun getitem_0 :: "json \<Rightarrow> error + json" where
  "getitem_0 (JArr []) = Inl IndexError"
| "getitem_0 (JArr (y # ys)) = Inr y"
| "getitem_0 (JObj kvs) = Inl KeyError"
| "getitem_0 (JStr []) = Inl IndexError"
| "getitem_0 (JStr (c # cs)) = Inr (JStr [c])"
| "getitem_0 _ = Inl TypeError"

text \<open>\<open>x / 60\<close>: defined on numbers and on bools (which are ints).\<close>

fun truediv :: "json \<Rightarrow> real \<Rightarrow> error + real" where
  "truediv (JNum r) d = Inr (r / d)"
| "truediv (JBool b) d = Inr ((if b then 1 else 0) / d)"
| "truediv _ d = Inl TypeError"

definition bind_err :: "error + 'a \<Rightarrow> ('a \<Rightarrow> error + 'b) \<Rightarrow> error + 'b" where
  "bind_err m f = (case m of Inl e \<Rightarrow> Inl e | Inr x \<Rightarrow> f x)"

section \<open>The world outside the core, and the stores\<close>

text \<open>
  What the core reaches but does not compute is a field of \<open>env\<close>: the settings, the
  clock (read once for a request), the database's \<open>ILIKE\<close>, pgvector's cosine
  distance, the embedding provider built at import time, the HTTP calls of the three
  routing providers, the digests, the text of a float, whether Redis answers, and
  whether the commit of the intent log row goes through.
\<close>

record env =
  settings :: Settings
  now_hour :: nat
  now_weekday :: nat
  now_utc :: int
  ilike :: "string \<Rightarrow> string \<Rightarrow> bool"
  cosine_distance :: "vector \<Rightarrow> vector \<Rightarrow> real"
  embed :: "string \<Rightarrow> error + vector"
  tomtom_get :: "real \<times> real \<Rightarrow> real \<times> real \<Rightarrow> string \<Rightarrow> error + response"
  ors_post :: "real \<times> real \<Rightarrow> real \<times> real \<Rightarrow> string \<Rightarrow> error + response"
  mapbox_get :: "real \<times> real \<Rightarrow> real \<times> real \<Rightarrow> string \<Rightarrow> error + response"
  md5_hex :: "string \<Rightarrow> string"
  sha256_hex :: "string \<Rightarrow> string"
  float_str :: "real \<Rightarrow> string"
  redis_up :: bool
  intent_log_commit_ok :: bool

datatype log_event =
    Info_suggest_cache_hit
  | Info_haversine nat nat
  | Info_no_candidates
  | Info_layer1_passed nat
  | Warning_no_embeddings
  | Warning_intent_log_failed

record routing_call =
  rc_provider :: string
  rc_origin :: "real \<times> real"
  rc_destination :: "real \<times> real"
  rc_mode :: string

text \<open>
  The tables, the two Redis caches the matcher uses (live entries only), the log
  records of the matcher and of the embeddings service, and the calls made to a
  routing provider.
\<close>

record state =
  venues :: "Venue list"
  venue_slots :: "VenueSlot list"
  venue_blackouts :: "VenueBlackout list"
  bookings :: "Booking list"
  venue_embeddings :: "VenueEmbedding list"
  intent_embeddings :: "IntentEmbedding list"
  travel_time_cache :: "TravelTimeCache list"
  intent_vector_cache :: "string \<rightharpoonup> vector"
  suggest_cache :: "string \<rightharpoonup> VenueSuggestion list \<times> string"
  logs :: "log_event list"
  routing_calls :: "routing_call list"

text \<open>\<open>RedisCache.get\<close> and \<open>set\<close>: any failure degrades to a miss or a no-op.\<close>

definition cache_get :: "env \<Rightarrow> (string \<rightharpoonup> 'a) \<Rightarrow> string \<Rightarrow> 'a option" where
  "cache_get e c k = (if redis_up e then c k else None)"

definition cache_set :: "env \<Rightarrow> (string \<rightharpoonup> 'a) \<Rightarrow> string \<Rightarrow> 'a \<Rightarrow> (string \<rightharpoonup> 'a)" where
  "cache_set e c k v = (if redis_up e then c(k \<mapsto> v) else c)"

section \<open>Travel-time resolver\<close>

definition make_origin_hash :: "env \<Rightarrow> real \<Rightarrow> real \<Rightarrow> string" where
  "make_origin_hash e olat olng =
     (let rounded = float_str e (py_round olat 3) @ '':'' @ float_str e (py_round olng 3)
      in take 16 (sha256_hex e rounded))"

definition get_time_bucket :: "env \<Rightarrow> string" where
  "get_time_bucket e =
     (let h = now_hour e; is_weekend = (5 \<le> now_weekday e)
      in if is_weekend then
           (if h < 12 then ''weekend_morning''
            else if h < 18 then ''weekend_afternoon''
            else ''weekend_evening'')
         else (if 17 \<le> h then ''weekday_evening'' else ''weekday_daytime''))"

text \<open>
  The body of a \<open>try\<close> whose handler is \<open>except (KeyError, IndexError): return None\<close>:
  these two errors become the result \<open>None\<close>, every other error propagates.
\<close>

definition except_Key_Index :: "error + real \<Rightarrow> error + real option" where
  "except_Key_Index r =
     (case r of
        Inl KeyError \<Rightarrow> Inr None
      | Inl IndexError \<Rightarrow> Inr None
      | Inl err \<Rightarrow> Inl err
      | Inr m \<Rightarrow> Inr (Some m))"

definition tomtom_minutes :: "json \<Rightarrow> error + real" where
  "tomtom_minutes data =
     bind_err (getitem_key data ''routes'') (\<lambda>routes.
     bind_err (getitem_0 routes) (\<lambda>r0.
     bind_err (getitem_key r0 ''summary'') (\<lambda>summary.
     bind_err (getitem_key summary ''travelTimeInSeconds'') (\<lambda>seconds.
     bind_err (truediv seconds 60) (\<lambda>q. Inr (py_round q 1))))))"

definition fetch_tomtom ::
  "env \<Rightarrow> real \<times> real \<Rightarrow> real \<times> real \<Rightarrow> string \<Rightarrow> error + real option" where
  "fetch_tomtom e origin destination mode =
     (let travel_mode = default_to ''car''
            (map_of [(''drive'', ''car''), (''walk'', ''pedestrian''), (''transit'', ''car'')] mode)
      in case tomtom_get e origin destination travel_mode of
           Inl err \<Rightarrow> Inl err
         | Inr resp \<Rightarrow>
             if status_code resp \<noteq> 200 then Inr None
             else (case body resp of
                     Inl err \<Rightarrow> Inl err
                   | Inr data \<Rightarrow> except_Key_Index (tomtom_minutes data)))"

definition ors_minutes :: "json \<Rightarrow> error + real" where
  "ors_minutes data =
     bind_err (getitem_key data ''routes'') (\<lambda>routes.
     bind_err (getitem_0 routes) (\<lambda>r0.
     bind_err (getitem_key r0 ''summary'') (\<lambda>summary.
     bind_err (getitem_key summary ''duration'') (\<lambda>duration.
     bind_err (truediv duration 60) (\<lambda>q. Inr (py_round q 1))))))"

definition fetch_ors ::
  "env \<Rightarrow> real \<times> real \<Rightarrow> real \<times> real \<Rightarrow> string \<Rightarrow> error + real option" where
  "fetch_ors e origin destination mode =
     (let profile = default_to ''driving-car''
            (map_of [(''drive'', ''driving-car''), (''walk'', ''foot-walking''),
                     (''transit'', ''driving-car'')] mode)
      in case ors_post e origin destination profile of
           Inl err \<Rightarrow> Inl err
         | Inr resp \<Rightarrow>
             if status_code resp \<noteq> 200 then Inr None
             else except_Key_Index (bind_err (body resp) ors_minutes))"

definition mapbox_minutes :: "json \<Rightarrow> error + real" where
  "mapbox_minutes data =
     bind_err (getitem_key data ''routes'') (\<lambda>routes.
     bind_err (getitem_0 routes) (\<lambda>r0.
     bind_err (getitem_key r0 ''duration'') (\<lambda>duration.
     bind_err (truediv duration 60) (\<lambda>q. Inr (py_round q 1)))))"

definition fetch_mapbox ::
  "env \<Rightarrow> real \<times> real \<Rightarrow> real \<times> real \<Rightarrow> string \<Rightarrow> error + real option" where
  "fetch_mapbox e origin destination mode =
     (let profile = default_to ''driving''
            (map_of [(''drive'', ''driving''), (''walk'', ''walking''),
                     (''transit'', ''driving'')] mode)
      in case mapbox_get e origin destination profile of
           Inl err \<Rightarrow> Inl err
         | Inr resp \<Rightarrow>
             if status_code resp \<noteq> 200 then Inr None
             else except_Key_Index (bind_err (body resp) mapbox_minutes))"

definition same_cache_key :: "string \<Rightarrow> int \<Rightarrow> string \<Rightarrow> string \<Rightarrow> TravelTimeCache \<Rightarrow> bool" where
  "same_cache_key oh vid mode bucket r \<longleftrightarrow>
     tc_origin_hash r = oh \<and> tc_venue_id r = vid \<and> tc_mode r = mode \<and> tc_time_bucket r = bucket"

text \<open>\<open>scalar_one_or_none()\<close>: no row, the one row, or \<open>MultipleResultsFound\<close>.\<close>

definition scalar_one_or_none :: "'a list \<Rightarrow> error + 'a option" where
  "scalar_one_or_none rows =
     (case rows of [] \<Rightarrow> Inr None | [r] \<Rightarrow> Inr (Some r) | _ \<Rightarrow> Inl MultipleResultsFound)"

text \<open>
  The part of \<open>get_travel_time\<close> after the cache lookup: the call of the configured
  provider (recorded in \<open>routing_calls\<close>) and the write of the new cache row.
\<close>

definition call_provider ::
  "env \<Rightarrow> state \<Rightarrow> real \<times> real \<Rightarrow> real \<times> real \<Rightarrow> int \<Rightarrow> string \<Rightarrow> string \<Rightarrow> string
     \<Rightarrow> error + (real option \<times> state)" where
  "call_provider e s origin destination vid mode oh bucket =
     (let provider = ROUTING_PROVIDER (settings e);
          s1 = s\<lparr>routing_calls := routing_calls s @
                 [\<lparr>rc_provider = provider, rc_origin = origin,
                   rc_destination = destination, rc_mode = mode\<rparr>]\<rparr>;
          fetched =
            (if provider = ''tomtom'' then fetch_tomtom e origin destination mode
             else if provider = ''openrouteservice'' then fetch_ors e origin destination mode
             else if provider = ''mapbox'' then fetch_mapbox e origin destination mode
             else Inl (ValueError (''Unknown routing provider: '' @ provider)))
      in case fetched of
           Inl err \<Rightarrow> Inl err
         | Inr None \<Rightarrow> Inr (None, s1)
         | Inr (Some minutes) \<Rightarrow>
             Inr (Some minutes,
                  s1\<lparr>travel_time_cache := travel_time_cache s1 @
                       [\<lparr>tc_origin_hash = oh, tc_venue_id = vid, tc_mode = mode,
                         tc_time_bucket = bucket, tc_travel_minutes = minutes,
                         tc_last_checked_at = now_utc e\<rparr>]\<rparr>))"

definition get_travel_time ::
  "env \<Rightarrow> state \<Rightarrow> real \<times> real \<Rightarrow> real \<times> real \<Rightarrow> int \<Rightarrow> string
     \<Rightarrow> error + (real option \<times> state)" where
  "get_travel_time e s origin destination vid mode =
     (let ttl = TRAVEL_TIME_CACHE_TTL_HOURS (settings e) * 3600;
          oh = make_origin_hash e (fst origin) (snd origin);
          bucket = get_time_bucket e
      in case scalar_one_or_none
                (filter (same_cache_key oh vid mode bucket) (travel_time_cache s)) of
           Inl err \<Rightarrow> Inl err
         | Inr None \<Rightarrow> call_provider e s origin destination vid mode oh bucket
         | Inr (Some cached) \<Rightarrow>
             if now_utc e - tc_last_checked_at cached < ttl
             then Inr (Some (tc_travel_minutes cached), s)
             else call_provider e
                    (s\<lparr>travel_time_cache :=
                         filter (\<lambda>r. \<not> same_cache_key oh vid mode bucket r) (travel_time_cache s)\<rparr>)
                    origin destination vid mode oh bucket)"

section \<open>Hard filters\<close>

definition slot_matches :: "int \<Rightarrow> time_of_day \<Rightarrow> VenueSlot \<Rightarrow> bool" where
  "slot_matches wd t sl \<longleftrightarrow>
     vs_is_active sl \<and> vs_weekday sl = wd
     \<and> time_le (vs_start_time sl) t \<and> time_lt t (vs_end_time sl)"

text \<open>The join of venues with their slots, \<open>DISTINCT\<close>: each venue row at most once.\<close>

definition select_open_venues ::
  "env \<Rightarrow> state \<Rightarrow> string \<Rightarrow> int \<Rightarrow> time_of_day \<Rightarrow> Venue list" where
  "select_open_venues e s cty wd t =
     filter (\<lambda>v. ilike e (v_city v) (''%'' @ cty @ ''%'')
                \<and> v_is_active v
                \<and> (\<exists>sl \<in> set (venue_slots s). vs_venue_id sl = v_id v \<and> slot_matches wd t sl))
            (venues s)"

definition covers :: "date \<Rightarrow> VenueBlackout \<Rightarrow> bool" where
  "covers d b \<longleftrightarrow> date_le (vb_start_date b) d \<and> date_le d (vb_end_date b)"

definition blacked_out :: "state \<Rightarrow> date \<Rightarrow> int set" where
  "blacked_out s d = set (map vb_venue_id (filter (covers d) (venue_blackouts s)))"

text \<open>
  The condition under which the loop asks for a travel time:
  \<open>origin_lat is not None and origin_lng is not None and venue.lat and venue.lng\<close>.
\<close>

definition asks_travel_time :: "real option \<Rightarrow> real option \<Rightarrow> Venue \<Rightarrow> bool" where
  "asks_travel_time olat olng v \<longleftrightarrow>
     olat \<noteq> None \<and> olng \<noteq> None \<and> truthy (v_lat v) \<and> truthy (v_lng v)"

text \<open>
  The loop over the venues that are left: \<open>acc\<close> is the list \<open>candidates\<close> so far.
\<close>

fun travel_loop ::
  "env \<Rightarrow> real option \<Rightarrow> real option \<Rightarrow> string \<Rightarrow> int \<Rightarrow> Venue list \<Rightarrow> state
     \<Rightarrow> CandidateVenue list \<Rightarrow> error + (CandidateVenue list \<times> state)" where
  "travel_loop e olat olng mode max_min [] s acc = Inr (acc, s)"
| "travel_loop e olat olng mode max_min (v # vs) s acc =
     (if asks_travel_time olat olng v then
        (case get_travel_time e s (the olat, the olng) (the (v_lat v), the (v_lng v))
                (v_id v) mode of
           Inl err \<Rightarrow> Inl err
         | Inr (None, s1) \<Rightarrow> travel_loop e olat olng mode max_min vs s1 acc
         | Inr (Some m, s1) \<Rightarrow>
             if of_int max_min < m then travel_loop e olat olng mode max_min vs s1 acc
             else travel_loop e olat olng mode max_min vs s1
                    (acc @ [\<lparr>venue = v, travel_minutes = Some m\<rparr>]))
      else travel_loop e olat olng mode max_min vs s
             (acc @ [\<lparr>venue = v, travel_minutes = None\<rparr>]))"

definition get_hard_filtered_candidates ::
  "env \<Rightarrow> state \<Rightarrow> string \<Rightarrow> date \<Rightarrow> time_of_day \<Rightarrow> real option \<Rightarrow> real option
     \<Rightarrow> string \<Rightarrow> int \<Rightarrow> error + (CandidateVenue list \<times> state)" where
  "get_hard_filtered_candidates e s cty target_date target_time olat olng mode max_min =
     (let wd = weekday target_date;
          vs0 = select_open_venues e s cty wd target_time
      in if vs0 = [] then Inr ([], s)
         else
           let vs1 = filter (\<lambda>v. v_id v \<notin> blacked_out s target_date) vs0
           in if vs1 = [] then Inr ([], s)
              else
                let (vs2, s2) =
                      (if olat \<noteq> None \<and> olng \<noteq> None then
                         (let kept = prefilter_by_distance vs1 (the olat) (the olng) mode max_min
                          in (kept, s\<lparr>logs := logs s @ [Info_haversine (length vs1) (length kept)]\<rparr>))
                       else (vs1, s))
                in if vs2 = [] then Inr ([], s2)
                   else travel_loop e olat olng mode max_min vs2 s2 [])"

section \<open>Embedding provider and intent text\<close>




text \<open>\<open>". ".join(parts)\<close>\<close>

fun join_dot :: "string list \<Rightarrow> string" where
  "join_dot [] = []"
| "join_dot [x] = x"
| "join_dot (x # y # ys) = x @ ''. '' @ join_dot (y # ys)"

definition build_intent_text ::
  "string \<Rightarrow> string \<Rightarrow> string \<Rightarrow> string \<Rightarrow> string \<Rightarrow> string \<Rightarrow> string" where
  "build_intent_text stg md en bud cty ft =
     (let parts = [stg, ''Mood: '' @ md, ''Energy: '' @ en, ''Budget: '' @ bud, ''City: '' @ cty];
          parts' = (if ft \<noteq> [] then parts @ [ft] else parts)
      in join_dot parts' @ ''.'')"

section \<open>Matcher\<close>

definition MAX_LOAD_PENALTY :: real where
  "MAX_LOAD_PENALTY = 0.3"

text \<open>
  \<open>round(req.origin_lat or 0, 3)\<close> inside the f-string: \<open>None\<close> and \<open>0.0\<close> are
  both falsy, so both give the int \<open>0\<close>, printed as \<open>0\<close>; any other float is
  rounded and printed as a float.
\<close>

definition coord_key :: "env \<Rightarrow> real option \<Rightarrow> string" where
  "coord_key e x = (if truthy x then float_str e (py_round (the x) 3) else int_str 0)"

text \<open>An enum with a \<open>str\<close> mixin is printed by an f-string as its value.\<close>

definition suggest_cache_key :: "env \<Rightarrow> SuggestRequest \<Rightarrow> string" where
  "suggest_cache_key e req =
     (let raw =
        city req @ ''|'' @ date_str (date req) @ ''|'' @ time_str (time req) @ ''|''
        @ coord_key e (origin_lat req) @ '','' @ coord_key e (origin_lng req) @ ''|''
        @ TravelMode_value (travel_mode req) @ ''|'' @ int_str (max_travel_minutes req) @ ''|''
        @ RelationshipStage_value (stage req) @ ''|'' @ Mood_value (mood req) @ ''|''
        @ EnergyLevel_value (energy req) @ ''|'' @ BudgetBand_value (budget req) @ ''|''
        @ default_to [] (free_text req) @ ''|'' @ int_str (top_n req)
      in md5_hex e raw)"

definition get_intent_vector :: "env \<Rightarrow> state \<Rightarrow> string \<Rightarrow> error + (vector \<times> state)" where
  "get_intent_vector e s txt =
     (case cache_get e (intent_vector_cache s) txt of
        Some cached \<Rightarrow> Inr (cached, s)
      | None \<Rightarrow>
          (case embed e txt of
             Inl err \<Rightarrow> Inl err
           | Inr v \<Rightarrow>
               Inr (v, s\<lparr>intent_vector_cache := cache_set e (intent_vector_cache s) txt v\<rparr>)))"

text \<open>
  The pgvector query: the embedding rows of the given venues with their distance to
  the intent vector, ordered by distance, at most \<open>n\<close> of them.
\<close>

definition find_similar_venues ::
  "env \<Rightarrow> state \<Rightarrow> vector \<Rightarrow> int list \<Rightarrow> int \<Rightarrow> (int \<times> real) list" where
  "find_similar_venues e s intent_vector candidate_venue_ids n =
     (if candidate_venue_ids = [] then []
      else
        let rows = filter (\<lambda>r. ve_venue_id r \<in> set candidate_venue_ids) (venue_embeddings s);
            dists = map (\<lambda>r. (ve_venue_id r, cosine_distance e (ve_embedding r) intent_vector)) rows
        in take (nat n) (sort_key snd dists))"

text \<open>
  \<open>log_intent_embedding\<close>: the row is added and committed; every exception of that
  is caught, the session is rolled back and a warning is logged, so that the function
  never raises. The rows that the request has read before are values here: what the
  rollback does to objects that the session has already loaded is not modelled.
\<close>

definition log_intent_embedding ::
  "env \<Rightarrow> state \<Rightarrow> string option \<Rightarrow> string \<Rightarrow> vector \<Rightarrow> state" where
  "log_intent_embedding e s sid txt v =
     (if intent_log_commit_ok e then
        s\<lparr>intent_embeddings := intent_embeddings s @
             [\<lparr>ie_session_id = sid, ie_intent_text = txt, ie_embedding = v,
               ie_model_name = EMBEDDING_MODEL (settings e)\<rparr>]\<rparr>
      else s\<lparr>logs := logs s @ [Warning_intent_log_failed]\<rparr>)"

definition load_of_venue :: "state \<Rightarrow> date \<Rightarrow> time_of_day \<Rightarrow> int \<Rightarrow> real" where
  "load_of_venue s target_date target_time vid =
     (let wd = weekday target_date;
          date_s = date_str target_date
      in case filter (\<lambda>sl. vs_venue_id sl = vid \<and> vs_weekday sl = wd
                              \<and> time_le (vs_start_time sl) target_time
                              \<and> time_lt target_time (vs_end_time sl)
                              \<and> vs_is_active sl) (venue_slots s) of
           [] \<Rightarrow> 0
         | slot # _ \<Rightarrow>
             let booked = length (filter (\<lambda>b. b_slot_id b = Some (vs_id slot)
                                               \<and> b_booked_date b = date_s
                                               \<and> b_status b \<in> {confirmed, pending}) (bookings s))
             in min (real booked / real_of_int (max (vs_max_tables_for_two slot) 1)) 1)"

definition get_load_factors ::
  "state \<Rightarrow> int list \<Rightarrow> date \<Rightarrow> time_of_day \<Rightarrow> (int \<rightharpoonup> real)" where
  "get_load_factors s candidate_venue_ids target_date target_time =
     fold (\<lambda>vid load_map. load_map(vid \<mapsto> load_of_venue s target_date target_time vid))
          candidate_venue_ids Map.empty"

text \<open>Layer 2 of \<open>suggest_venues\<close>: the similarity map, with its side effects.\<close>

definition similarity_layer ::
  "env \<Rightarrow> state \<Rightarrow> SuggestRequest \<Rightarrow> string \<Rightarrow> int list
     \<Rightarrow> error + ((int \<rightharpoonup> real) \<times> state)" where
  "similarity_layer e s req txt candidate_ids =
     (let emb_count = length (filter (\<lambda>r. ve_venue_id r \<in> set candidate_ids) (venue_embeddings s))
      in if emb_count = 0 then
           Inr (fold (\<lambda>vid m. m(vid \<mapsto> 0.5)) candidate_ids Map.empty,
                s\<lparr>logs := logs s @ [Warning_no_embeddings]\<rparr>)
         else
           (case get_intent_vector e s txt of
              Inl err \<Rightarrow> Inl err
            | Inr (intent_vector, s1) \<Rightarrow>
                let embedded_ids =
                      remdups (map ve_venue_id
                        (filter (\<lambda>r. ve_venue_id r \<in> set candidate_ids) (venue_embeddings s1)));
                    unembedded_ids = filter (\<lambda>vid. vid \<notin> set embedded_ids) candidate_ids;
                    m1 = fold (\<lambda>vid m. m(vid \<mapsto> 0.5)) unembedded_ids Map.empty;
                    m2 = (if embedded_ids \<noteq> [] then
                            fold (\<lambda>(vid, distance) m. m(vid \<mapsto> distance))
                              (find_similar_venues e s1 intent_vector embedded_ids
                                 (int (length embedded_ids)))
                              m1
                          else m1)
                in Inr (m2, log_intent_embedding e s1 (session_id req) txt intent_vector)))"

definition final_score :: "(int \<rightharpoonup> real) \<Rightarrow> (int \<rightharpoonup> real) \<Rightarrow> int \<Rightarrow> real" where
  "final_score similarity_map load_factors vid =
     default_to 0.5 (similarity_map vid) * (1 + default_to 0 (load_factors vid) * MAX_LOAD_PENALTY)"

definition scored_list :: "(int \<rightharpoonup> real) \<Rightarrow> (int \<rightharpoonup> real) \<Rightarrow> int list \<Rightarrow> (real \<times> int) list" where
  "scored_list similarity_map load_factors candidate_ids =
     sort (map (\<lambda>vid. (final_score similarity_map load_factors vid, vid)) candidate_ids)"

text \<open>\<open>emb_texts.get(venue_id)\<close>: the text of the last embedding row of the venue.\<close>

definition emb_text :: "state \<Rightarrow> int list \<Rightarrow> int \<Rightarrow> string option" where
  "emb_text s top_ids vid =
     (case map_of (rev (map (\<lambda>r. (ve_venue_id r, ve_source_text r))
                          (filter (\<lambda>r. ve_venue_id r \<in> set top_ids) (venue_embeddings s)))) vid of
        None \<Rightarrow> None
      | Some txt \<Rightarrow> txt)"

definition make_suggestion ::
  "state \<Rightarrow> (int \<rightharpoonup> real) \<Rightarrow> (int \<rightharpoonup> real) \<Rightarrow> int list \<Rightarrow> CandidateVenue \<Rightarrow> real \<Rightarrow> int
     \<Rightarrow> VenueSuggestion" where
  "make_suggestion s similarity_map load_factors top_ids c fscore vid =
     (let v = venue c
      in \<lparr> sg_venue_id = v_id v,
           sg_name = v_name v,
           sg_address = v_address v,
           sg_city = v_city v,
           sg_cuisine = v_cuisine v,
           sg_vibe_tags = v_vibe_tags v,
           sg_noise_level = map_option NoiseLevel_value (v_noise_level v),
           sg_price_band = map_option PriceBand_value (v_price_band v),
           sg_description = v_description v,
           sg_lat = v_lat v,
           sg_lng = v_lng v,
           sg_travel_minutes = travel_minutes c,
           sg_similarity_score = py_round (default_to 0.5 (similarity_map vid)) 4,
           sg_load_factor = py_round (default_to 0 (load_factors vid)) 4,
           sg_final_score = py_round fscore 4,
           sg_source_text = emb_text s top_ids vid \<rparr>)"

text \<open>
  The loop that builds the suggestions; \<open>candidate_map[venue_id]\<close> raises
  \<open>KeyError\<close> on a missing key.
\<close>

fun build_suggestions ::
  "state \<Rightarrow> (int \<rightharpoonup> real) \<Rightarrow> (int \<rightharpoonup> real) \<Rightarrow> int list \<Rightarrow> (int \<rightharpoonup> CandidateVenue)
     \<Rightarrow> (real \<times> int) list \<Rightarrow> error + VenueSuggestion list" where
  "build_suggestions s similarity_map load_factors top_ids candidate_map [] = Inr []"
| "build_suggestions s similarity_map load_factors top_ids candidate_map ((fscore, vid) # rest) =
     (case candidate_map vid of
        None \<Rightarrow> Inl KeyError
      | Some c \<Rightarrow>
          (case build_suggestions s similarity_map load_factors top_ids candidate_map rest of
             Inl err \<Rightarrow> Inl err
           | Inr sgs \<Rightarrow>
               Inr (make_suggestion s similarity_map load_factors top_ids c fscore vid # sgs)))"

text \<open>Layers 2 and 3, the scoring and the write to the cache, for a non-empty candidate list.\<close>

definition rank_candidates ::
  "env \<Rightarrow> state \<Rightarrow> SuggestRequest \<Rightarrow> string \<Rightarrow> string \<Rightarrow> CandidateVenue list
     \<Rightarrow> error + ((VenueSuggestion list \<times> string) \<times> state)" where
  "rank_candidates e s req txt cache_key candidates =
     (let candidate_ids = map (\<lambda>c. v_id (venue c)) candidates;
          candidate_map = fold (\<lambda>c m. m(v_id (venue c) \<mapsto> c)) candidates Map.empty;
          s1 = s\<lparr>logs := logs s @ [Info_layer1_passed (length candidates)]\<rparr>
      in case similarity_layer e s1 req txt candidate_ids of
           Inl err \<Rightarrow> Inl err
         | Inr (similarity_map, s2) \<Rightarrow>
             let load_factors = get_load_factors s2 candidate_ids (date req) (time req);
                 scored = scored_list similarity_map load_factors candidate_ids;
                 top = slice_to scored (top_n req);
                 top_ids = map snd top
             in (case build_suggestions s2 similarity_map load_factors top_ids candidate_map top of
                   Inl err \<Rightarrow> Inl err
                 | Inr sgs \<Rightarrow>
                     Inr ((sgs, txt),
                          s2\<lparr>suggest_cache := cache_set e (suggest_cache s2) cache_key (sgs, txt)\<rparr>)))"

definition suggest_venues ::
  "env \<Rightarrow> state \<Rightarrow> SuggestRequest \<Rightarrow> error + ((VenueSuggestion list \<times> string) \<times> state)" where
  "suggest_venues e s req =
     (let txt = build_intent_text
                  (RelationshipStage_value (stage req)) (Mood_value (mood req))
                  (EnergyLevel_value (energy req)) (BudgetBand_value (budget req))
                  (city req) (default_to [] (free_text req));
          cache_key = suggest_cache_key e req
      in case cache_get e (suggest_cache s) cache_key of
           Some (raw_suggestions, cached_intent) \<Rightarrow>
             Inr ((raw_suggestions, cached_intent),
                  s\<lparr>logs := logs s @ [Info_suggest_cache_hit]\<rparr>)
         | None \<Rightarrow>
             (case get_hard_filtered_candidates e s (city req) (date req) (time req)
                     (origin_lat req) (origin_lng req) (TravelMode_value (travel_mode req))
                     (max_travel_minutes req) of
                Inl err \<Rightarrow> Inl err
              | Inr (candidates, s1) \<Rightarrow>
                  if candidates = [] then
                    Inr (([], txt), s1\<lparr>logs := logs s1 @ [Info_no_candidates]\<rparr>)
                  else rank_candidates e s1 req txt cache_key candidates))"

section \<open>The endpoint\<close>

datatype http_result = Response_200 SuggestResponse | HTTPException int

definition suggest :: "env \<Rightarrow> state \<Rightarrow> SuggestRequest \<Rightarrow> http_result" where
  "suggest e s payload =
     (case suggest_venues e s payload of
        Inl err \<Rightarrow> HTTPException 500
      | Inr ((sgs, txt), s1) \<Rightarrow>
          if sgs = [] then HTTPException 404
          else Response_200 \<lparr>count = length sgs, intent_text = txt, suggestions = sgs\<rparr>)"

section \<open>Admin endpoints\<close>

definition date_lt :: "date \<Rightarrow> date \<Rightarrow> bool" where
  "date_lt a b \<longleftrightarrow> (year a, month a, day a) < (year b, month b, day b)"

text \<open>
  \<open>add_venue_blackout\<close> of the admin API: 404 when the venue does not exist, 400 when
  the range ends before it starts; otherwise the row is added and committed. The
  suggest cache is not touched, whereas \<open>update_venue\<close>, \<open>deactivate_venue\<close> and
  \<open>create_booking\<close> end with \<open>suggest_cache.clear()\<close>. \<open>Inl\<close> is the status of the
  error response (500 for an exception that no handler catches).
\<close>

definition add_venue_blackout :: "state \<Rightarrow> int \<Rightarrow> date \<Rightarrow> date \<Rightarrow> int + state" where
  "add_venue_blackout s venue_id start_date end_date =
     (case scalar_one_or_none (filter (\<lambda>v. v_id v = venue_id) (venues s)) of
        Inl err \<Rightarrow> Inl 500
      | Inr None \<Rightarrow> Inl 404
      | Inr (Some v) \<Rightarrow>
          if date_lt end_date start_date then Inl 400
          else Inr (s\<lparr>venue_blackouts := venue_blackouts s @
                       [\<lparr>vb_venue_id = venue_id, vb_start_date = start_date,
                         vb_end_date = end_date\<rparr>]\<rparr>))"

section \<open>Sample data\<close>

text \<open>
  A sample world and small catalogues, on which the theorems below are instantiated.
  The sample database matches a city pattern that is the city name up to case; the
  sample distance is the cosine distance of two vectors; the sample digests are the
  identity and the sample text of a float counts its thousandths.
\<close>

definition dot :: "vector \<Rightarrow> vector \<Rightarrow> real" where
  "dot u w = sum_list (map2 (*) u w)"

definition sample_cosine_distance :: "vector \<Rightarrow> vector \<Rightarrow> real" where
  "sample_cosine_distance u w = 1 - dot u w / (sqrt (dot u u) * sqrt (dot w w))"

definition route_json :: "json \<Rightarrow> json" where
  "route_json seconds =
     JObj [(''routes'', JArr [JObj [(''summary'', JObj [(''travelTimeInSeconds'', seconds)])]])]"

definition sample_settings :: Settings where
  "sample_settings =
     \<lparr> ROUTING_PROVIDER = ''tomtom'', TRAVEL_TIME_CACHE_TTL_HOURS = 72,
       EMBEDDING_PROVIDER = ''local'', EMBEDDING_MODEL = ''all-MiniLM-L6-v2'' \<rparr>"

definition sample_env :: env where
  "sample_env =
     \<lparr> settings = sample_settings,
       now_hour = 10,
       now_weekday = 1,
       now_utc = 1000,
       ilike = (\<lambda>txt pat. lower pat = ''%'' @ lower txt @ ''%''),
       cosine_distance = sample_cosine_distance,
       embed = (\<lambda>txt. Inr [1, 0, 0, 0]),
       tomtom_get = (\<lambda>origin destination m.
                      Inr \<lparr>status_code = 200, body = Inr (route_json (JNum 600))\<rparr>),
       ors_post = (\<lambda>origin destination m. Inl HTTPError),
       mapbox_get = (\<lambda>origin destination m. Inl HTTPError),
       md5_hex = (\<lambda>raw. raw),
       sha256_hex = (\<lambda>raw. raw),
       float_str = (\<lambda>x. int_str (round_half_even (x * 1000))),
       redis_up = True,
       intent_log_commit_ok = True \<rparr>"

definition empty_state :: state where
  "empty_state =
     \<lparr> venues = [], venue_slots = [], venue_blackouts = [], bookings = [],
       venue_embeddings = [], intent_embeddings = [], travel_time_cache = [],
       intent_vector_cache = Map.empty, suggest_cache = Map.empty,
       logs = [], routing_calls = [] \<rparr>"

definition sample_venue :: "int \<Rightarrow> string \<Rightarrow> real option \<Rightarrow> real option \<Rightarrow> Venue" where
  "sample_venue i nm vlat vlng =
     \<lparr> v_id = i, v_name = nm, v_address = ''Park Street'', v_city = ''Bristol'',
       v_lat = vlat, v_lng = vlng, v_cuisine = Some ''italian'',
       v_vibe_tags = Some ''cosy,romantic'', v_description = None,
       v_noise_level = Some quiet, v_price_band = Some pb_mid, v_is_active = True \<rparr>"

definition clock :: "nat \<Rightarrow> nat \<Rightarrow> time_of_day" where
  "clock h m = \<lparr>hour = h, minute = m, second = 0, microsecond = 0\<rparr>"

definition sample_slot :: "int \<Rightarrow> int \<Rightarrow> int \<Rightarrow> time_of_day \<Rightarrow> time_of_day \<Rightarrow> VenueSlot" where
  "sample_slot i vid wd t1 t2 =
     \<lparr> vs_id = i, vs_venue_id = vid, vs_weekday = wd, vs_start_time = t1, vs_end_time = t2,
       vs_max_tables_for_two = 5, vs_is_active = True \<rparr>"

definition sample_booking :: "int \<Rightarrow> BookingStatus \<Rightarrow> Booking" where
  "sample_booking slot st = \<lparr>b_slot_id = Some slot, b_status = st, b_booked_date = ''2026-02-25''\<rparr>"

definition wednesday :: date where
  "wednesday = \<lparr>year = 2026, month = 2, day = 25\<rparr>"

definition thursday :: date where
  "thursday = \<lparr>year = 2026, month = 2, day = 26\<rparr>"

text \<open>
  The scenario of the specification: Bristol, Wednesday 2026-02-25 at 19:00, by car
  within 45 minutes from (51.4545, -2.5879); venue A (id 1) is free and at distance
  0.10, venue B (id 2) has four of five tables taken and is at distance 0.08.
\<close>

definition bristol_lat :: real where
  "bristol_lat = 51.4545"

definition bristol_lng :: real where
  "bristol_lng = - 2.5879"

definition venue_A :: Venue where
  "venue_A = sample_venue 1 ''Venue A'' (Some bristol_lat) (Some bristol_lng)"

definition venue_B :: Venue where
  "venue_B = sample_venue 2 ''Venue B'' (Some (bristol_lat + 0.001)) (Some bristol_lng)"

definition bristol_state :: state where
  "bristol_state = empty_state
     \<lparr> venues := [venue_A, venue_B],
       venue_slots := [sample_slot 10 1 2 (clock 18 0) (clock 22 0), sample_slot 20 2 2 (clock 18 0) (clock 22 0)],
       bookings := [sample_booking 20 confirmed, sample_booking 20 confirmed,
                    sample_booking 20 pending, sample_booking 20 cancelled,
                    sample_booking 20 confirmed],
       venue_embeddings :=
         [\<lparr>ve_venue_id = 1, ve_embedding = [0.9, 0.3, 0.3, 0.1], ve_source_text = Some ''Venue: Venue A.''\<rparr>,
          \<lparr>ve_venue_id = 2, ve_embedding = [0.92, 0.32, 0.16, 0.16], ve_source_text = Some ''Venue: Venue B.''\<rparr>] \<rparr>"

definition bristol_request :: SuggestRequest where
  "bristol_request =
     \<lparr> city = ''Bristol'', origin_lat = Some bristol_lat, origin_lng = Some bristol_lng,
       travel_mode = drive, max_travel_minutes = 45, date = wednesday, time = clock 19 0,
       stage = first_date, mood = romantic, energy = low, budget = mid,
       free_text = None, top_n = 3, session_id = None \<rparr>"

definition bristol_payload :: SuggestPayload where
  "bristol_payload =
     \<lparr> p_city = Some ''Bristol'', p_origin_lat = Some bristol_lat, p_origin_lng = Some bristol_lng,
       p_travel_mode = Some drive, p_max_travel_minutes = Some 45, p_date = Some wednesday,
       p_time = Some (clock 19 0), p_stage = Some first_date, p_mood = Some romantic,
       p_energy = None, p_budget = Some mid, p_free_text = None, p_top_n = Some 3,
       p_session_id = None \<rparr>"

text \<open>
  A catalogue for the availability filter, with no embeddings at all: venue A is open
  on Wednesday evening; the slot of venue C ends at 19:00 sharp; venue D is open on
  Wednesday and Thursday and blacked out on the one day 2026-02-25; venue E is not
  active; venue F opens on Thursdays only. Only venue A has coordinates.
\<close>

definition venue_C :: Venue where
  "venue_C = sample_venue 3 ''Venue C'' None None"

definition venue_D :: Venue where
  "venue_D = sample_venue 4 ''Venue D'' None None"

definition venue_E :: Venue where
  "venue_E = (sample_venue 5 ''Venue E'' None None)\<lparr>v_is_active := False\<rparr>"

definition venue_F :: Venue where
  "venue_F = sample_venue 6 ''Venue F'' None None"

definition availability_state :: state where
  "availability_state = empty_state
     \<lparr> venues := [venue_A, venue_C, venue_D, venue_E, venue_F],
       venue_slots :=
         [sample_slot 10 1 2 (clock 18 0) (clock 22 0),
          sample_slot 30 3 2 (clock 18 0) (clock 19 0),
          sample_slot 40 4 2 (clock 18 0) (clock 22 0),
          sample_slot 41 4 3 (clock 18 0) (clock 22 0),
          sample_slot 50 5 2 (clock 18 0) (clock 22 0),
          sample_slot 60 6 3 (clock 18 0) (clock 22 0)],
       venue_blackouts :=
         [\<lparr>vb_venue_id = 4, vb_start_date = wednesday, vb_end_date = wednesday\<rparr>] \<rparr>"

text \<open>The request of the scenario without an origin, and the same on the next day.\<close>

definition wednesday_request :: SuggestRequest where
  "wednesday_request = bristol_request\<lparr>origin_lat := None, origin_lng := None\<rparr>"


text \<open>
  Two venues on one meridian near the equator: venue Z has latitude exactly 0.0,
  venue Y lies 0.002 degrees north. The request starts between them, at 0.001 degrees.
\<close>

definition near_equator :: real where
  "near_equator = 0.001"

definition meridian :: real where
  "meridian = 7"




definition equator_request :: SuggestRequest where
  "equator_request = bristol_request\<lparr>origin_lat := Some near_equator, origin_lng := Some meridian\<rparr>"





text \<open>
  The state once the Wednesday request has been answered on the availability
  catalogue, and the state once venue A has then been blacked out for that Wednesday.
\<close>

definition cached_state :: state where
  "cached_state = snd (projr (suggest_venues sample_env availability_state wednesday_request))"

definition stale_state :: state where
  "stale_state = projr (add_venue_blackout cached_state 1 wednesday wednesday)"






section \<open>Predicates of the specification\<close>

text \<open>
  The availability condition in the words of the specification: the venue is active,
  it has an active slot on the weekday of the date whose half-open interval
  [start_time, end_time) contains the time, and no blackout of the venue has
  start_date \<le> date \<le> end_date.
\<close>

definition spec_available :: "state \<Rightarrow> date \<Rightarrow> time_of_day \<Rightarrow> Venue \<Rightarrow> bool" where
  "spec_available s d t v \<longleftrightarrow>
     v_is_active v
     \<and> (\<exists>sl \<in> set (venue_slots s). vs_venue_id sl = v_id v \<and> vs_is_active sl
            \<and> vs_weekday sl = weekday d
            \<and> time_le (vs_start_time sl) t \<and> time_lt t (vs_end_time sl))
     \<and> \<not> (\<exists>b \<in> set (venue_blackouts s). vb_venue_id b = v_id v
            \<and> date_le (vb_start_date b) d \<and> date_le d (vb_end_date b))"




section \<open>Properties of the geo prefilter\<close>

lemma speed_cases:
  "(case map_of SPEED_KM_PER_MIN mode of Some v \<Rightarrow> v | None \<Rightarrow> 0.5) =
     (if mode = ''walk'' then 0.083 else if mode = ''drive'' then 0.5
      else if mode = ''transit'' then 0.4 else 0.5)"
  by (simp add: SPEED_KM_PER_MIN_def)

lemma max_radius_km_mono:
  assumes "m1 \<le> m2"
  shows "max_radius_km mode m1 \<le> max_radius_km mode m2"
proof -
  have "(0::real) \<le> (if mode = ''walk'' then 0.083 else if mode = ''drive'' then 0.5
      else if mode = ''transit'' then 0.4 else 0.5)"
    by simp
  moreover have "(of_int m1 :: real) \<le> of_int m2"
    using assms by simp
  ultimately show ?thesis
    unfolding max_radius_km_def speed_cases SAFETY_FACTOR_def
    by (intro mult_right_mono mult_left_mono) simp_all
qed

lemma haversine_km_self: "haversine_km a b a b = 0"
  by (simp add: haversine_km_def radians_def)

lemma within_radius_mono:
  "r1 \<le> r2 \<Longrightarrow> within_radius a b r1 v \<Longrightarrow> within_radius a b r2 v"
  by (auto simp: within_radius_def split: option.splits)

section \<open>Structure of the ranking\<close>

lemma fold_upd_lookup:
  "fold (\<lambda>k m. m(k \<mapsto> f k)) ks m0 x = (if x \<in> set ks then Some (f x) else m0 x)"
  by (induction ks arbitrary: m0) auto

lemma fold_upd_pairs_other:
  "x \<notin> fst ` set ps \<Longrightarrow> fold (\<lambda>(k, d) m. m(k \<mapsto> d)) ps m0 x = m0 x"
  by (induction ps arbitrary: m0) auto

lemma fold_candidate_map:
  "fold (\<lambda>c m. m(v_id (venue c) \<mapsto> c)) cs m0 x = Some c \<Longrightarrow>
     (c \<in> set cs \<and> v_id (venue c) = x) \<or> m0 x = Some c"
  by (induction cs arbitrary: c rule: rev_induct) (auto split: if_splits)

lemma fold_candidate_map_dom:
  "x \<in> set (map (\<lambda>c. v_id (venue c)) cs) \<Longrightarrow>
     fold (\<lambda>c m. m(v_id (venue c) \<mapsto> c)) cs m0 x \<noteq> None"
proof (induction cs arbitrary: m0 rule: rev_induct)
  case Nil
  then show ?case by simp
next
  case (snoc c cs)
  then show ?case by (cases "v_id (venue c) = x") auto
qed

lemma set_slice_to: "set (slice_to xs n) \<subseteq> set xs"
  by (auto simp: slice_to_def dest: in_set_takeD)

lemma slice_to_nonneg: "0 \<le> n \<Longrightarrow> slice_to xs n = take (nat n) xs"
  by (simp add: slice_to_def)

lemma set_scored_list:
  "set (scored_list sim lf ids) = (\<lambda>vid. (final_score sim lf vid, vid)) ` set ids"
  by (simp add: scored_list_def)

lemma sorted_scored_list: "sorted (scored_list sim lf ids)"
  by (simp add: scored_list_def)

lemma length_scored_list: "length (scored_list sim lf ids) = length ids"
  by (simp add: scored_list_def)

lemma build_suggestions_Inr:
  "build_suggestions s sim lf tids cmap tp = Inr sgs \<Longrightarrow>
     sgs = map (\<lambda>(sc, vid). make_suggestion s sim lf tids (the (cmap vid)) sc vid) tp
     \<and> (\<forall>(sc, vid) \<in> set tp. cmap vid \<noteq> None)"
  by (induction tp arbitrary: sgs) (auto split: option.splits sum.splits)

lemma build_suggestions_total:
  "\<forall>(sc, vid) \<in> set tp. cmap vid \<noteq> None \<Longrightarrow>
     build_suggestions s sim lf tids cmap tp =
       Inr (map (\<lambda>(sc, vid). make_suggestion s sim lf tids (the (cmap vid)) sc vid) tp)"
  by (induction tp) (auto split: option.splits sum.splits)

lemma get_intent_vector_state:
  "get_intent_vector e s txt = Inr (v, s1) \<Longrightarrow>
     s1 = s\<lparr>intent_vector_cache := intent_vector_cache s1\<rparr>"
  by (auto simp: get_intent_vector_def split: option.splits sum.splits)

lemma log_intent_embedding_state:
  "log_intent_embedding e s sid txt v =
     s\<lparr>intent_embeddings := intent_embeddings (log_intent_embedding e s sid txt v),
       logs := logs (log_intent_embedding e s sid txt v)\<rparr>"
  by (simp add: log_intent_embedding_def)

lemma find_similar_venues_ids:
  "fst ` set (find_similar_venues e s iv ids n) \<subseteq> ve_venue_id ` set (venue_embeddings s)"
proof
  fix x assume "x \<in> fst ` set (find_similar_venues e s iv ids n)"
  then obtain d where "(x, d) \<in> set (find_similar_venues e s iv ids n)" by auto
  then have "(x, d) \<in> set (map (\<lambda>r. (ve_venue_id r, cosine_distance e (ve_embedding r) iv))
                 (filter (\<lambda>r. ve_venue_id r \<in> set ids) (venue_embeddings s)))"
    by (auto simp: find_similar_venues_def Let_def split: if_splits dest!: in_set_takeD)
  then show "x \<in> ve_venue_id ` set (venue_embeddings s)" by auto
qed

lemma similarity_layer_state:
  assumes "similarity_layer e s req txt ids = Inr (sim, s')"
  shows "s' = s\<lparr>intent_embeddings := intent_embeddings s',
                 intent_vector_cache := intent_vector_cache s',
                 logs := logs s'\<rparr>"
proof (cases "filter (\<lambda>r. ve_venue_id r \<in> set ids) (venue_embeddings s) = []")
  case True
  with assms show ?thesis by (auto simp: similarity_layer_def)
next
  case False
  with assms obtain iv s1 where
    g: "get_intent_vector e s txt = Inr (iv, s1)" and
    s': "s' = log_intent_embedding e s1 (session_id req) txt iv"
    by (auto simp: similarity_layer_def Let_def split: sum.splits)
  from get_intent_vector_state [OF g] show ?thesis
    unfolding s' log_intent_embedding_def
    by (cases s, cases s1) (auto split: if_splits)
qed

lemma similarity_layer_unembedded:
  assumes run: "similarity_layer e s req txt ids = Inr (sim, s')"
      and mem: "vid \<in> set ids"
      and none: "vid \<notin> ve_venue_id ` set (venue_embeddings s)"
  shows "sim vid = Some (1 / 2)"
proof (cases "filter (\<lambda>r. ve_venue_id r \<in> set ids) (venue_embeddings s) = []")
  case True
  with run have "sim = fold (\<lambda>vid m. m(vid \<mapsto> 0.5)) ids Map.empty"
    by (auto simp: similarity_layer_def)
  with mem show ?thesis by (simp add: fold_upd_lookup)
next
  case False
  with run obtain iv s1 where
    g: "get_intent_vector e s txt = Inr (iv, s1)"
    by (auto simp: similarity_layer_def Let_def split: sum.splits)
  from get_intent_vector_state [OF g] have emb: "venue_embeddings s1 = venue_embeddings s"
    by (cases s, cases s1) auto
  define embedded where
    "embedded = remdups (map ve_venue_id (filter (\<lambda>r. ve_venue_id r \<in> set ids) (venue_embeddings s)))"
  define m1 where
    "m1 = fold (\<lambda>vid m. m(vid \<mapsto> 0.5 :: real)) (filter (\<lambda>vid. vid \<notin> set embedded) ids) Map.empty"
  have vid_un: "vid \<notin> set embedded" using none by (auto simp: embedded_def)
  have m1: "m1 vid = Some (1 / 2)"
    using mem vid_un by (simp add: m1_def fold_upd_lookup)
  have notin: "vid \<notin> fst ` set (find_similar_venues e s1 iv embedded (int (length embedded)))"
    using find_similar_venues_ids [of e s1 iv embedded] none emb by auto
  have "sim = (if embedded \<noteq> [] then
                 fold (\<lambda>(vid, distance) m. m(vid \<mapsto> distance))
                   (find_similar_venues e s1 iv embedded (int (length embedded))) m1
               else m1)"
    using run False g emb by (simp add: similarity_layer_def Let_def embedded_def m1_def)
  then show ?thesis
    using m1 fold_upd_pairs_other [OF notin, of m1] by (simp split: if_splits)
qed

lemma similarity_layer_no_embeddings:
  assumes "\<forall>vid \<in> set ids. vid \<notin> ve_venue_id ` set (venue_embeddings s)"
  shows "similarity_layer e s req txt ids =
           Inr (fold (\<lambda>vid m. m(vid \<mapsto> 0.5)) ids Map.empty,
                s\<lparr>logs := logs s @ [Warning_no_embeddings]\<rparr>)"
proof -
  have "filter (\<lambda>r. ve_venue_id r \<in> set ids) (venue_embeddings s) = []"
    using assms by (auto simp: filter_empty_conv)
  then show ?thesis by (simp add: similarity_layer_def)
qed

lemma py_round_half: "py_round (1 / 2) 4 = 1 / 2"
  by (simp add: py_round_def round_half_even_def Let_def)

lemma candidate_map_id:
  "fold (\<lambda>c m. m(v_id (venue c) \<mapsto> c)) cs Map.empty x = Some c \<Longrightarrow>
     c \<in> set cs \<and> v_id (venue c) = x"
  using fold_candidate_map [of cs Map.empty x c] by simp

lemma rank_candidates_Inr:
  assumes "rank_candidates e s req txt key cands = Inr ((sgs, txt'), s')"
  obtains sim s2 where
    "similarity_layer e (s\<lparr>logs := logs s @ [Info_layer1_passed (length cands)]\<rparr>) req txt
        (map (\<lambda>c. v_id (venue c)) cands) = Inr (sim, s2)"
    "txt' = txt"
    "sgs = map (\<lambda>(sc, vid).
              make_suggestion s2 sim
                (get_load_factors s2 (map (\<lambda>c. v_id (venue c)) cands) (date req) (time req))
                (map snd (slice_to (scored_list sim
                   (get_load_factors s2 (map (\<lambda>c. v_id (venue c)) cands) (date req) (time req))
                   (map (\<lambda>c. v_id (venue c)) cands)) (top_n req)))
                (the (fold (\<lambda>c m. m(v_id (venue c) \<mapsto> c)) cands Map.empty vid)) sc vid)
            (slice_to (scored_list sim
               (get_load_factors s2 (map (\<lambda>c. v_id (venue c)) cands) (date req) (time req))
               (map (\<lambda>c. v_id (venue c)) cands)) (top_n req))"
    "s' = s2\<lparr>suggest_cache := cache_set e (suggest_cache s2) key (sgs, txt)\<rparr>"
proof -
  define ids where "ids = map (\<lambda>c. v_id (venue c)) cands"
  define s1 where "s1 = s\<lparr>logs := logs s @ [Info_layer1_passed (length cands)]\<rparr>"
  define cmap where "cmap = fold (\<lambda>c m. m(v_id (venue c) \<mapsto> c)) cands Map.empty"
  from assms obtain sim s2 where
    sl: "similarity_layer e s1 req txt ids = Inr (sim, s2)"
    by (cases "similarity_layer e s1 req txt ids")
       (auto simp: rank_candidates_def Let_def ids_def s1_def)
  define lf where "lf = get_load_factors s2 ids (date req) (time req)"
  define tp where "tp = slice_to (scored_list sim lf ids) (top_n req)"
  have run: "(case build_suggestions s2 sim lf (map snd tp) cmap tp of
                Inl err \<Rightarrow> Inl err
              | Inr sgs \<Rightarrow> Inr ((sgs, txt),
                   s2\<lparr>suggest_cache := cache_set e (suggest_cache s2) key (sgs, txt)\<rparr>))
             = Inr ((sgs, txt'), s')"
    using assms sl
    unfolding rank_candidates_def Let_def ids_def s1_def cmap_def lf_def tp_def by simp
  then obtain sgs0 where
    b: "build_suggestions s2 sim lf (map snd tp) cmap tp = Inr sgs0"
    by (cases "build_suggestions s2 sim lf (map snd tp) cmap tp") auto
  with run have eqs: "sgs = sgs0" "txt' = txt"
    "s' = s2\<lparr>suggest_cache := cache_set e (suggest_cache s2) key (sgs, txt)\<rparr>"
    by auto
  from build_suggestions_Inr [OF b] eqs
  have "sgs = map (\<lambda>(sc, vid). make_suggestion s2 sim lf (map snd tp) (the (cmap vid)) sc vid) tp"
    by simp
  note sg = this
  show ?thesis
  proof (rule that [of sim s2])
    show "similarity_layer e (s\<lparr>logs := logs s @ [Info_layer1_passed (length cands)]\<rparr>) req txt
        (map (\<lambda>c. v_id (venue c)) cands) = Inr (sim, s2)"
      using sl unfolding ids_def s1_def .
    show "txt' = txt" by (rule eqs)
    show "s' = s2\<lparr>suggest_cache := cache_set e (suggest_cache s2) key (sgs, txt)\<rparr>"
      by (rule eqs)
    show "sgs = map (\<lambda>(sc, vid).
              make_suggestion s2 sim
                (get_load_factors s2 (map (\<lambda>c. v_id (venue c)) cands) (date req) (time req))
                (map snd (slice_to (scored_list sim
                   (get_load_factors s2 (map (\<lambda>c. v_id (venue c)) cands) (date req) (time req))
                   (map (\<lambda>c. v_id (venue c)) cands)) (top_n req)))
                (the (fold (\<lambda>c m. m(v_id (venue c) \<mapsto> c)) cands Map.empty vid)) sc vid)
            (slice_to (scored_list sim
               (get_load_factors s2 (map (\<lambda>c. v_id (venue c)) cands) (date req) (time req))
               (map (\<lambda>c. v_id (venue c)) cands)) (top_n req))"
      using sg unfolding ids_def cmap_def lf_def tp_def .
  qed
qed

lemma top_in_candidate_map:
  assumes "(sc, vid) \<in> set (slice_to (scored_list sim lf (map (\<lambda>c. v_id (venue c)) cands)) n)"
  shows "fold (\<lambda>c m. m(v_id (venue c) \<mapsto> c)) cands Map.empty vid \<noteq> None"
proof -
  from assms have "(sc, vid) \<in> set (scored_list sim lf (map (\<lambda>c. v_id (venue c)) cands))"
    by (rule set_slice_to [THEN subsetD])
  then have "vid \<in> set (map (\<lambda>c. v_id (venue c)) cands)"
    unfolding set_scored_list by blast
  then show ?thesis by (rule fold_candidate_map_dom)
qed

lemma rank_candidates_total:
  assumes "similarity_layer e (s\<lparr>logs := logs s @ [Info_layer1_passed (length cands)]\<rparr>) req txt
        (map (\<lambda>c. v_id (venue c)) cands) = Inr (sim, s2)"
  shows "\<exists>sgs. rank_candidates e s req txt key cands =
           Inr ((sgs, txt), s2\<lparr>suggest_cache := cache_set e (suggest_cache s2) key (sgs, txt)\<rparr>)"
proof -
  define ids where "ids = map (\<lambda>c. v_id (venue c)) cands"
  define lf where "lf = get_load_factors s2 ids (date req) (time req)"
  define tp where "tp = slice_to (scored_list sim lf ids) (top_n req)"
  define cmap where "cmap = fold (\<lambda>c m. m(v_id (venue c) \<mapsto> c)) cands Map.empty"
  have "\<forall>(sc, vid) \<in> set tp. cmap vid \<noteq> None"
    unfolding tp_def cmap_def ids_def by (auto dest: top_in_candidate_map)
  then have B: "build_suggestions s2 sim lf (map snd tp) cmap tp =
       Inr (map (\<lambda>(sc, vid). make_suggestion s2 sim lf (map snd tp) (the (cmap vid)) sc vid) tp)"
    by (rule build_suggestions_total)
  have R: "rank_candidates e s req txt key cands =
     (case similarity_layer e (s\<lparr>logs := logs s @ [Info_layer1_passed (length cands)]\<rparr>) req txt ids of
        Inl err \<Rightarrow> Inl err
      | Inr (sim, s2) \<Rightarrow>
         (let lf = get_load_factors s2 ids (date req) (time req);
              tp = slice_to (scored_list sim lf ids) (top_n req)
          in case build_suggestions s2 sim lf (map snd tp) cmap tp of
                Inl err \<Rightarrow> Inl err
              | Inr sgs \<Rightarrow> Inr ((sgs, txt),
                   s2\<lparr>suggest_cache := cache_set e (suggest_cache s2) key (sgs, txt)\<rparr>)))"
    unfolding rank_candidates_def Let_def ids_def cmap_def ..
  have A: "similarity_layer e (s\<lparr>logs := logs s @ [Info_layer1_passed (length cands)]\<rparr>) req txt ids
             = Inr (sim, s2)"
    using assms unfolding ids_def .
  have "rank_candidates e s req txt key cands =
          Inr ((map (\<lambda>(sc, vid). make_suggestion s2 sim lf (map snd tp) (the (cmap vid)) sc vid) tp, txt),
               s2\<lparr>suggest_cache := cache_set e (suggest_cache s2) key
                  (map (\<lambda>(sc, vid). make_suggestion s2 sim lf (map snd tp) (the (cmap vid)) sc vid) tp, txt)\<rparr>)"
    unfolding R A using B unfolding lf_def tp_def by (simp add: Let_def)
  then show ?thesis by (rule exI)
qed

lemma make_suggestion_fields:
  "sg_venue_id (make_suggestion s sim lf tids c sc vid) = v_id (venue c)"
  "sg_similarity_score (make_suggestion s sim lf tids c sc vid) = py_round (default_to 0.5 (sim vid)) 4"
  "sg_load_factor (make_suggestion s sim lf tids c sc vid) = py_round (default_to 0 (lf vid)) 4"
  "sg_final_score (make_suggestion s sim lf tids c sc vid) = py_round sc 4"
  "sg_travel_minutes (make_suggestion s sim lf tids c sc vid) = travel_minutes c"
  "sg_lat (make_suggestion s sim lf tids c sc vid) = v_lat (venue c)"
  "sg_lng (make_suggestion s sim lf tids c sc vid) = v_lng (venue c)"
  by (simp_all add: make_suggestion_def Let_def)

text \<open>What \<open>rank_candidates\<close> returns, suggestion by suggestion.\<close>

lemma rank_candidates_suggestions:
  assumes "rank_candidates e s req txt key cands = Inr ((sgs, txt'), s')"
  obtains sim s2 where
    "similarity_layer e (s\<lparr>logs := logs s @ [Info_layer1_passed (length cands)]\<rparr>) req txt
        (map (\<lambda>c. v_id (venue c)) cands) = Inr (sim, s2)"
    "s' = s2\<lparr>suggest_cache := cache_set e (suggest_cache s2) key (sgs, txt)\<rparr>"
    "txt' = txt"
    "map (\<lambda>g. (sg_final_score g, sg_venue_id g)) sgs =
       map (\<lambda>(sc, vid). (py_round sc 4, vid))
         (slice_to (scored_list sim
               (get_load_factors s2 (map (\<lambda>c. v_id (venue c)) cands) (date req) (time req))
               (map (\<lambda>c. v_id (venue c)) cands)) (top_n req))"
    "\<forall>g \<in> set sgs.
       sg_venue_id g \<in> set (map (\<lambda>c. v_id (venue c)) cands)
       \<and> sg_similarity_score g = py_round (default_to 0.5 (sim (sg_venue_id g))) 4
       \<and> (\<exists>c \<in> set cands. v_id (venue c) = sg_venue_id g
             \<and> sg_travel_minutes g = travel_minutes c
             \<and> sg_lat g = v_lat (venue c) \<and> sg_lng g = v_lng (venue c))"
proof -
  from assms obtain sim s2 where
    sl: "similarity_layer e (s\<lparr>logs := logs s @ [Info_layer1_passed (length cands)]\<rparr>) req txt
        (map (\<lambda>c. v_id (venue c)) cands) = Inr (sim, s2)"
    and t: "txt' = txt"
    and sg: "sgs = map (\<lambda>(sc, vid).
              make_suggestion s2 sim
                (get_load_factors s2 (map (\<lambda>c. v_id (venue c)) cands) (date req) (time req))
                (map snd (slice_to (scored_list sim
                   (get_load_factors s2 (map (\<lambda>c. v_id (venue c)) cands) (date req) (time req))
                   (map (\<lambda>c. v_id (venue c)) cands)) (top_n req)))
                (the (fold (\<lambda>c m. m(v_id (venue c) \<mapsto> c)) cands Map.empty vid)) sc vid)
            (slice_to (scored_list sim
               (get_load_factors s2 (map (\<lambda>c. v_id (venue c)) cands) (date req) (time req))
               (map (\<lambda>c. v_id (venue c)) cands)) (top_n req))"
    and s': "s' = s2\<lparr>suggest_cache := cache_set e (suggest_cache s2) key (sgs, txt)\<rparr>"
    by (rule rank_candidates_Inr)
  define ids where "ids = map (\<lambda>c. v_id (venue c)) cands"
  define lf where "lf = get_load_factors s2 ids (date req) (time req)"
  define tp where "tp = slice_to (scored_list sim lf ids) (top_n req)"
  define cmap where "cmap = fold (\<lambda>c m. m(v_id (venue c) \<mapsto> c)) cands Map.empty"
  have sg': "sgs = map (\<lambda>(sc, vid). make_suggestion s2 sim lf (map snd tp) (the (cmap vid)) sc vid) tp"
    using sg unfolding ids_def lf_def tp_def cmap_def .
  have cm: "\<exists>c \<in> set cands. cmap vid = Some c \<and> v_id (venue c) = vid"
    if "(sc, vid) \<in> set tp" for sc vid
  proof -
    from that have "cmap vid \<noteq> None"
      unfolding tp_def cmap_def ids_def by (rule top_in_candidate_map)
    then obtain c where c: "cmap vid = Some c" by auto
    with candidate_map_id [of cands vid c] show ?thesis
      unfolding cmap_def by auto
  qed
  have ids_mem: "vid \<in> set ids" if "(sc, vid) \<in> set tp" for sc vid
  proof -
    from that have "(sc, vid) \<in> set (scored_list sim lf ids)"
      unfolding tp_def by (rule set_slice_to [THEN subsetD])
    then show ?thesis unfolding set_scored_list by blast
  qed
  have m: "map (\<lambda>g. (sg_final_score g, sg_venue_id g)) sgs = map (\<lambda>(sc, vid). (py_round sc 4, vid)) tp"
  proof -
    have "v_id (venue (the (cmap vid))) = vid" if "(sc, vid) \<in> set tp" for sc vid
      using cm [OF that] by auto
    then show ?thesis
      unfolding sg' by (auto simp: make_suggestion_fields)
  qed
  have each: "\<forall>g \<in> set sgs.
       sg_venue_id g \<in> set ids
       \<and> sg_similarity_score g = py_round (default_to 0.5 (sim (sg_venue_id g))) 4
       \<and> (\<exists>c \<in> set cands. v_id (venue c) = sg_venue_id g
             \<and> sg_travel_minutes g = travel_minutes c
             \<and> sg_lat g = v_lat (venue c) \<and> sg_lng g = v_lng (venue c))"
  proof
    fix g assume "g \<in> set sgs"
    then obtain sc vid where tpm: "(sc, vid) \<in> set tp"
      and g: "g = make_suggestion s2 sim lf (map snd tp) (the (cmap vid)) sc vid"
      unfolding sg' by auto
    from cm [OF tpm] obtain c where c: "c \<in> set cands" "cmap vid = Some c" "v_id (venue c) = vid"
      by blast
    from ids_mem [OF tpm] c show "sg_venue_id g \<in> set ids
       \<and> sg_similarity_score g = py_round (default_to 0.5 (sim (sg_venue_id g))) 4
       \<and> (\<exists>c \<in> set cands. v_id (venue c) = sg_venue_id g
             \<and> sg_travel_minutes g = travel_minutes c
             \<and> sg_lat g = v_lat (venue c) \<and> sg_lng g = v_lng (venue c))"
      unfolding g by (auto simp: make_suggestion_fields)
  qed
  show ?thesis
  proof (rule that [of sim s2])
    show "similarity_layer e (s\<lparr>logs := logs s @ [Info_layer1_passed (length cands)]\<rparr>) req txt
        (map (\<lambda>c. v_id (venue c)) cands) = Inr (sim, s2)" by (rule sl)
    show "s' = s2\<lparr>suggest_cache := cache_set e (suggest_cache s2) key (sgs, txt)\<rparr>" by (rule s')
    show "txt' = txt" by (rule t)
    show "map (\<lambda>g. (sg_final_score g, sg_venue_id g)) sgs =
       map (\<lambda>(sc, vid). (py_round sc 4, vid))
         (slice_to (scored_list sim
               (get_load_factors s2 (map (\<lambda>c. v_id (venue c)) cands) (date req) (time req))
               (map (\<lambda>c. v_id (venue c)) cands)) (top_n req))"
      using m unfolding ids_def lf_def tp_def .
    show "\<forall>g \<in> set sgs.
       sg_venue_id g \<in> set (map (\<lambda>c. v_id (venue c)) cands)
       \<and> sg_similarity_score g = py_round (default_to 0.5 (sim (sg_venue_id g))) 4
       \<and> (\<exists>c \<in> set cands. v_id (venue c) = sg_venue_id g
             \<and> sg_travel_minutes g = travel_minutes c
             \<and> sg_lat g = v_lat (venue c) \<and> sg_lng g = v_lng (venue c))"
      using each unfolding ids_def .
  qed
qed

section \<open>Structure of the hard filter\<close>

lemma call_provider_state:
  assumes "call_provider e s origin destination vid mode oh bucket = Inr (r, s1)"
  shows "s1 = s\<lparr>travel_time_cache := travel_time_cache s1, routing_calls := routing_calls s1\<rparr>
         \<and> (\<exists>rc. routing_calls s1 = routing_calls s @ [rc] \<and> rc_destination rc = destination)"
  using assms
  by (cases s) (auto simp: call_provider_def Let_def split: sum.splits option.splits if_splits)

lemma get_travel_time_state:
  assumes "get_travel_time e s origin destination vid mode = Inr (r, s1)"
  shows "s1 = s\<lparr>travel_time_cache := travel_time_cache s1, routing_calls := routing_calls s1\<rparr>
         \<and> (\<exists>ext. routing_calls s1 = routing_calls s @ ext
                \<and> (\<forall>rc \<in> set ext. rc_destination rc = destination))"
proof -
  define oh where "oh = make_origin_hash e (fst origin) (snd origin)"
  define bucket where "bucket = get_time_bucket e"
  define s0 where "s0 = s\<lparr>travel_time_cache :=
       filter (\<lambda>r. \<not> same_cache_key oh vid mode bucket r) (travel_time_cache s)\<rparr>"
  consider (hit) "s1 = s"
    | (miss) "call_provider e s origin destination vid mode oh bucket = Inr (r, s1)"
    | (stale) "call_provider e s0 origin destination vid mode oh bucket = Inr (r, s1)"
    using assms unfolding get_travel_time_def Let_def oh_def bucket_def s0_def
    by (auto split: sum.splits option.splits if_splits)
  then show ?thesis
  proof cases
    case hit
    then show ?thesis by simp
  next
    case miss
    from call_provider_state [OF this] show ?thesis by auto
  next
    case stale
    from call_provider_state [OF this] show ?thesis
      unfolding s0_def by (cases s) auto
  qed
qed

lemma travel_loop_props:
  assumes "travel_loop e olat olng mode maxm vs s acc = Inr (cands, s')"
  shows "\<exists>new ext.
           cands = acc @ new
         \<and> (\<forall>c \<in> set new. venue c \<in> set vs
               \<and> (if asks_travel_time olat olng (venue c)
                   then \<exists>m. travel_minutes c = Some m \<and> m \<le> of_int maxm
                   else travel_minutes c = None))
         \<and> (\<forall>v \<in> set vs. \<not> asks_travel_time olat olng v
               \<longrightarrow> \<lparr>venue = v, travel_minutes = None\<rparr> \<in> set new)
         \<and> routing_calls s' = routing_calls s @ ext
         \<and> (\<forall>rc \<in> set ext. \<exists>v \<in> set vs. asks_travel_time olat olng v
               \<and> rc_destination rc = (the (v_lat v), the (v_lng v)))
         \<and> s' = s\<lparr>travel_time_cache := travel_time_cache s', routing_calls := routing_calls s'\<rparr>"
  using assms
proof (induction vs arbitrary: s acc)
  case Nil
  then show ?case by (cases s) auto
next
  case (Cons v vs)
  show ?case
  proof (cases "asks_travel_time olat olng v")
    case False
    with Cons.prems have
      "travel_loop e olat olng mode maxm vs s (acc @ [\<lparr>venue = v, travel_minutes = None\<rparr>]) = Inr (cands, s')"
      by simp
    from Cons.IH [OF this] obtain new ext where
      n: "cands = (acc @ [\<lparr>venue = v, travel_minutes = None\<rparr>]) @ new"
      "\<forall>c \<in> set new. venue c \<in> set vs
               \<and> (if asks_travel_time olat olng (venue c)
                   then \<exists>m. travel_minutes c = Some m \<and> m \<le> of_int maxm
                   else travel_minutes c = None)"
      "\<forall>v \<in> set vs. \<not> asks_travel_time olat olng v
               \<longrightarrow> \<lparr>venue = v, travel_minutes = None\<rparr> \<in> set new"
      "routing_calls s' = routing_calls s @ ext"
      "\<forall>rc \<in> set ext. \<exists>v \<in> set vs. asks_travel_time olat olng v
               \<and> rc_destination rc = (the (v_lat v), the (v_lng v))"
      "s' = s\<lparr>travel_time_cache := travel_time_cache s', routing_calls := routing_calls s'\<rparr>"
      by blast
    show ?thesis
      apply (rule exI [where x = "\<lparr>venue = v, travel_minutes = None\<rparr> # new"])
      apply (rule exI [where x = ext])
      using n False by auto
  next
    case True
    with Cons.prems obtain r s1 where
      g: "get_travel_time e s (the olat, the olng) (the (v_lat v), the (v_lng v)) (v_id v) mode = Inr (r, s1)"
      by (auto split: sum.splits)
    from get_travel_time_state [OF g] obtain ext1 where
      s1: "s1 = s\<lparr>travel_time_cache := travel_time_cache s1, routing_calls := routing_calls s1\<rparr>"
      and e1: "routing_calls s1 = routing_calls s @ ext1"
      and d1: "\<forall>rc \<in> set ext1. rc_destination rc = (the (v_lat v), the (v_lng v))"
      by blast
    define acc1 where "acc1 = (case r of None \<Rightarrow> acc
        | Some m \<Rightarrow> if of_int maxm < m then acc else acc @ [\<lparr>venue = v, travel_minutes = Some m\<rparr>])"
    have "travel_loop e olat olng mode maxm vs s1 acc1 = Inr (cands, s')"
      using Cons.prems True g by (auto simp: acc1_def split: option.splits)
    from Cons.IH [OF this] obtain new ext where
      n: "cands = acc1 @ new"
      "\<forall>c \<in> set new. venue c \<in> set vs
               \<and> (if asks_travel_time olat olng (venue c)
                   then \<exists>m. travel_minutes c = Some m \<and> m \<le> of_int maxm
                   else travel_minutes c = None)"
      "\<forall>v \<in> set vs. \<not> asks_travel_time olat olng v
               \<longrightarrow> \<lparr>venue = v, travel_minutes = None\<rparr> \<in> set new"
      "routing_calls s' = routing_calls s1 @ ext"
      "\<forall>rc \<in> set ext. \<exists>v \<in> set vs. asks_travel_time olat olng v
               \<and> rc_destination rc = (the (v_lat v), the (v_lng v))"
      and s': "s' = s1\<lparr>travel_time_cache := travel_time_cache s', routing_calls := routing_calls s'\<rparr>"
      by blast
    define pre where "pre = (case r of None \<Rightarrow> []
        | Some m \<Rightarrow> if of_int maxm < m then [] else [\<lparr>venue = v, travel_minutes = Some m\<rparr>])"
    have pre: "acc1 = acc @ pre"
      "\<forall>c \<in> set pre. venue c = v \<and> (\<exists>m. travel_minutes c = Some m \<and> m \<le> of_int maxm)"
      by (auto simp: acc1_def pre_def split: option.splits)
    have st: "s' = s\<lparr>travel_time_cache := travel_time_cache s', routing_calls := routing_calls s'\<rparr>"
      using s1 s' by (cases s, cases s1, cases s') auto
    show ?thesis
      apply (rule exI [where x = "pre @ new"])
      apply (rule exI [where x = "ext1 @ ext"])
      using n pre True e1 d1 st by auto
  qed
qed

lemma hard_filter_props:
  assumes run: "get_hard_filtered_candidates e s cty d t olat olng mode maxm = Inr (cands, s')"
      and pool: "pool = (let vs1 = filter (\<lambda>v. v_id v \<notin> blacked_out s d)
                                     (select_open_venues e s cty (weekday d) t)
                         in if olat \<noteq> None \<and> olng \<noteq> None
                            then prefilter_by_distance vs1 (the olat) (the olng) mode maxm
                            else vs1)"
  shows "(\<forall>c \<in> set cands. venue c \<in> set pool
               \<and> (if asks_travel_time olat olng (venue c)
                   then \<exists>m. travel_minutes c = Some m \<and> m \<le> of_int maxm
                   else travel_minutes c = None))
         \<and> (\<forall>v \<in> set pool. \<not> asks_travel_time olat olng v
               \<longrightarrow> \<lparr>venue = v, travel_minutes = None\<rparr> \<in> set cands)
         \<and> (\<exists>ext. routing_calls s' = routing_calls s @ ext
               \<and> (\<forall>rc \<in> set ext. \<exists>v \<in> set pool. asks_travel_time olat olng v
                     \<and> rc_destination rc = (the (v_lat v), the (v_lng v))))
         \<and> s' = s\<lparr>travel_time_cache := travel_time_cache s',
                   logs := logs s', routing_calls := routing_calls s'\<rparr>"
proof -
  define vs0 where "vs0 = select_open_venues e s cty (weekday d) t"
  define vs1 where "vs1 = filter (\<lambda>v. v_id v \<notin> blacked_out s d) vs0"
  define s2 where "s2 = (if olat \<noteq> None \<and> olng \<noteq> None
      then s\<lparr>logs := logs s @ [Info_haversine (length vs1) (length pool)]\<rparr> else s)"
  have pool': "pool = (if olat \<noteq> None \<and> olng \<noteq> None
                            then prefilter_by_distance vs1 (the olat) (the olng) mode maxm
                            else vs1)"
    unfolding pool vs1_def vs0_def Let_def ..
  have unfold: "get_hard_filtered_candidates e s cty d t olat olng mode maxm =
     (if vs0 = [] then Inr ([], s)
      else if vs1 = [] then Inr ([], s)
      else if pool = [] then Inr ([], s2)
      else travel_loop e olat olng mode maxm pool s2 [])"
    unfolding get_hard_filtered_candidates_def Let_def vs0_def [symmetric] vs1_def [symmetric]
    unfolding pool' s2_def
    by (simp add: Let_def)
  have s2_rc: "routing_calls s2 = routing_calls s" by (simp add: s2_def)
  have s2_st: "s2 = s\<lparr>logs := logs s2\<rparr>" by (cases s) (simp add: s2_def)
  have empty_pool: "pool = []" if "vs0 = [] \<or> vs1 = []"
  proof -
    from that have "vs1 = []" by (auto simp: vs1_def)
    then show ?thesis unfolding pool' by (simp add: prefilter_by_distance_def)
  qed
  show ?thesis
  proof (cases "pool = []")
    case True
    then have "cands = [] \<and> (s' = s \<or> s' = s2)"
      using run unfolding unfold by (auto split: if_splits)
    moreover have "s = s\<lparr>travel_time_cache := travel_time_cache s,
                   logs := logs s, routing_calls := routing_calls s\<rparr>" by simp
    moreover have "s2 = s\<lparr>travel_time_cache := travel_time_cache s2,
                   logs := logs s2, routing_calls := routing_calls s2\<rparr>"
      by (simp add: s2_def)
    ultimately show ?thesis using True s2_rc by auto
  next
    case False
    with empty_pool have "travel_loop e olat olng mode maxm pool s2 [] = Inr (cands, s')"
      using run unfolding unfold by (auto split: if_splits)
    from travel_loop_props [OF this] obtain new ext where
      n: "cands = [] @ new"
      "\<forall>c \<in> set new. venue c \<in> set pool
               \<and> (if asks_travel_time olat olng (venue c)
                   then \<exists>m. travel_minutes c = Some m \<and> m \<le> of_int maxm
                   else travel_minutes c = None)"
      "\<forall>v \<in> set pool. \<not> asks_travel_time olat olng v
               \<longrightarrow> \<lparr>venue = v, travel_minutes = None\<rparr> \<in> set new"
      "routing_calls s' = routing_calls s2 @ ext"
      "\<forall>rc \<in> set ext. \<exists>v \<in> set pool. asks_travel_time olat olng v
               \<and> rc_destination rc = (the (v_lat v), the (v_lng v))"
      and s': "s' = s2\<lparr>travel_time_cache := travel_time_cache s', routing_calls := routing_calls s'\<rparr>"
      by blast
    have st: "s' = s\<lparr>travel_time_cache := travel_time_cache s',
                   logs := logs s', routing_calls := routing_calls s'\<rparr>"
    proof -
      have "s' = s2\<lparr>travel_time_cache := travel_time_cache s', logs := logs s2,
                   routing_calls := routing_calls s'\<rparr>"
        using s' by simp
      also have "\<dots> = s\<lparr>travel_time_cache := travel_time_cache s', logs := logs s2,
                   routing_calls := routing_calls s'\<rparr>"
        by (simp add: s2_def)
      finally have st0: "s' = s\<lparr>travel_time_cache := travel_time_cache s', logs := logs s2,
                   routing_calls := routing_calls s'\<rparr>" .
      have "logs s' = logs s2" using arg_cong [OF st0, of logs] by simp
      with st0 show ?thesis by simp
    qed
    from n s2_rc st show ?thesis by auto
  qed
qed

lemma load_of_venue_cong:
  "venue_slots s = venue_slots s' \<Longrightarrow> bookings s = bookings s' \<Longrightarrow>
     load_of_venue s d t vid = load_of_venue s' d t vid"
  by (simp add: load_of_venue_def Let_def split: list.splits)


lemma emb_text_cong:
  "venue_embeddings s = venue_embeddings s' \<Longrightarrow> emb_text s tids vid = emb_text s' tids vid"
  by (simp add: emb_text_def)

lemma make_suggestion_cong:
  "venue_embeddings s = venue_embeddings s' \<Longrightarrow>
     make_suggestion s sim lf tids c sc vid = make_suggestion s' sim lf tids c sc vid"
  by (simp add: make_suggestion_def emb_text_cong [of s s'])

lemma build_suggestions_cong:
  "venue_embeddings s = venue_embeddings s' \<Longrightarrow>
     build_suggestions s sim lf tids cmap tp = build_suggestions s' sim lf tids cmap tp"
  by (induction tp) (auto simp: make_suggestion_cong [of s s'] split: option.splits sum.splits)

lemma load_of_venue_frame:
  "load_of_venue (s\<lparr>logs := a\<rparr>) = load_of_venue s"
  "load_of_venue (s\<lparr>intent_embeddings := b\<rparr>) = load_of_venue s"
  "load_of_venue (s\<lparr>intent_vector_cache := c\<rparr>) = load_of_venue s"
  "load_of_venue (s\<lparr>travel_time_cache := f\<rparr>) = load_of_venue s"
  "load_of_venue (s\<lparr>routing_calls := g\<rparr>) = load_of_venue s"
  by (intro ext load_of_venue_cong; simp)+

lemma emb_text_frame:
  "emb_text (s\<lparr>logs := a\<rparr>) = emb_text s"
  "emb_text (s\<lparr>intent_embeddings := b\<rparr>) = emb_text s"
  "emb_text (s\<lparr>intent_vector_cache := c\<rparr>) = emb_text s"
  "emb_text (s\<lparr>travel_time_cache := f\<rparr>) = emb_text s"
  "emb_text (s\<lparr>routing_calls := g\<rparr>) = emb_text s"
  by (intro ext emb_text_cong; simp)+

section \<open>The sample catalogues, evaluated\<close>

lemma weekday_wednesday: "weekday wednesday = 2"
  by (simp add: wednesday_def weekday_def toordinal_def days_before_year_def
        days_before_month_def days_in_month_def is_leap_def Let_def upt_conv_Cons)

lemma weekday_thursday: "weekday thursday = 3"
  by (simp add: thursday_def weekday_def toordinal_def days_before_year_def
        days_before_month_def days_in_month_def is_leap_def Let_def upt_conv_Cons)

lemma slot_matches_sample:
  "slot_matches wd (clock 19 0) (sample_slot i vid wd' (clock 18 0) (clock 22 0)) \<longleftrightarrow> wd' = wd"
  "slot_matches wd (clock 19 0) (sample_slot i vid wd' (clock 18 0) (clock 19 0)) \<longleftrightarrow> False"
  by (simp_all add: slot_matches_def sample_slot_def clock_def time_le_def time_lt_def time_key_def)

lemma sample_slot_fields:
  "vs_id (sample_slot i vid wd t1 t2) = i"
  "vs_venue_id (sample_slot i vid wd t1 t2) = vid"
  "vs_weekday (sample_slot i vid wd t1 t2) = wd"
  "vs_start_time (sample_slot i vid wd t1 t2) = t1"
  "vs_end_time (sample_slot i vid wd t1 t2) = t2"
  "vs_max_tables_for_two (sample_slot i vid wd t1 t2) = 5"
  "vs_is_active (sample_slot i vid wd t1 t2) = True"
  by (simp_all add: sample_slot_def)

lemma sample_venue_fields:
  "v_id (sample_venue i nm a b) = i"
  "v_city (sample_venue i nm a b) = ''Bristol''"
  "v_lat (sample_venue i nm a b) = a"
  "v_lng (sample_venue i nm a b) = b"
  "v_is_active (sample_venue i nm a b) = True"
  by (simp_all add: sample_venue_def)

lemma ilike_sample: "ilike sample_env ''Bristol'' ''%Bristol%''"
  by (simp add: sample_env_def lower_def lower_char_def)

lemma open_wednesday:
  "select_open_venues sample_env availability_state ''Bristol'' 2 (clock 19 0) = [venue_A, venue_D]"
  by (simp add: select_open_venues_def availability_state_def empty_state_def slot_matches_sample
        venue_A_def venue_C_def venue_D_def venue_E_def venue_F_def sample_venue_fields ilike_sample
        sample_slot_fields)


lemma blacked_out_wednesday: "blacked_out availability_state wednesday = {4}"
  by (simp add: blacked_out_def availability_state_def empty_state_def covers_def date_le_def
        wednesday_def)


lemma req_fields:
  "city wednesday_request = ''Bristol''" "date wednesday_request = wednesday"
  "time wednesday_request = clock 19 0" "origin_lat wednesday_request = None"
  "origin_lng wednesday_request = None" "travel_mode wednesday_request = drive"
  "max_travel_minutes wednesday_request = 45" "top_n wednesday_request = 3"
  "session_id wednesday_request = None" "free_text wednesday_request = None"
  by (simp_all add: wednesday_request_def bristol_request_def)

lemma avail_fields:
  "venue_embeddings availability_state = []"
  "bookings availability_state = []"
  "suggest_cache availability_state = Map.empty"
  "intent_embeddings availability_state = []"
  "logs availability_state = []"
  by (simp_all add: availability_state_def empty_state_def)

lemma asks_no_origin: "\<not> asks_travel_time None olng v"
  by (simp add: asks_travel_time_def)

lemma hard_wednesday:
  "get_hard_filtered_candidates sample_env availability_state ''Bristol'' wednesday (clock 19 0)
     None None ''drive'' 45 = Inr ([\<lparr>venue = venue_A, travel_minutes = None\<rparr>], availability_state)"
  by (simp add: get_hard_filtered_candidates_def weekday_wednesday open_wednesday
        blacked_out_wednesday venue_A_def venue_D_def sample_venue_fields asks_no_origin)

lemma load_A: "load_of_venue availability_state wednesday (clock 19 0) 1 = 0"
  by (simp add: load_of_venue_def weekday_wednesday availability_state_def empty_state_def
        sample_slot_fields clock_def time_le_def time_lt_def time_key_def)

lemma rank_wednesday:
  "map_sum id (\<lambda>r. map (\<lambda>g. (sg_venue_id g, sg_similarity_score g, sg_load_factor g, sg_final_score g)) (fst (fst r)))
     (rank_candidates sample_env availability_state wednesday_request txt key
        [\<lparr>venue = venue_A, travel_minutes = None\<rparr>]) = Inr [(1, 0.5, 0, 0.5)]"
  by (simp add: rank_candidates_def similarity_layer_def get_load_factors_def load_A req_fields
        scored_list_def final_score_def default_to_def slice_to_def MAX_LOAD_PENALTY_def
        make_suggestion_def py_round_def round_half_even_def Let_def
        venue_A_def sample_venue_fields avail_fields load_of_venue_frame)

lemma pool_available:
  assumes "v \<in> set (let vs1 = filter (\<lambda>v. v_id v \<notin> blacked_out s d)
                                     (select_open_venues e s cty (weekday d) t)
                         in if olat \<noteq> None \<and> olng \<noteq> None
                            then prefilter_by_distance vs1 (the olat) (the olng) mode maxm
                            else vs1)"
  shows "v \<in> set (venues s) \<and> spec_available s d t v"
proof -
  from assms have v: "v \<in> set (select_open_venues e s cty (weekday d) t)"
    and b: "v_id v \<notin> blacked_out s d"
    by (auto simp: Let_def prefilter_by_distance_def split: if_splits)
  from v have "v \<in> set (venues s)" "v_is_active v"
    "\<exists>sl \<in> set (venue_slots s). vs_venue_id sl = v_id v \<and> slot_matches (weekday d) t sl"
    by (auto simp: select_open_venues_def)
  moreover from b have "\<not> (\<exists>b \<in> set (venue_blackouts s). vb_venue_id b = v_id v
            \<and> date_le (vb_start_date b) d \<and> date_le d (vb_end_date b))"
    by (force simp: blacked_out_def covers_def image_iff)
  ultimately show ?thesis
    by (auto simp: spec_available_def slot_matches_def)
qed

lemma hard_filter_available:
  assumes "get_hard_filtered_candidates e s cty d t olat olng mode maxm = Inr (cands, s1)"
      and "c \<in> set cands"
  shows "venue c \<in> set (venues s) \<and> spec_available s d t (venue c)"
  using hard_filter_props [OF assms(1) refl] assms(2) pool_available by blast

text \<open>The two outcomes of \<open>suggest_venues\<close> on a cache miss.\<close>

lemma suggest_venues_miss:
  assumes "cache_get e (suggest_cache s) (suggest_cache_key e req) = None"
      and "suggest_venues e s req = Inr ((sgs, txt), s')"
  obtains cands s1 where
    "get_hard_filtered_candidates e s (city req) (date req) (time req)
        (origin_lat req) (origin_lng req) (TravelMode_value (travel_mode req))
        (max_travel_minutes req) = Inr (cands, s1)"
    "cands = [] \<longrightarrow> sgs = []"
    "cands \<noteq> [] \<longrightarrow> rank_candidates e s1 req txt (suggest_cache_key e req) cands = Inr ((sgs, txt), s')"
proof -
  from assms obtain cands s1 where
    h: "get_hard_filtered_candidates e s (city req) (date req) (time req)
        (origin_lat req) (origin_lng req) (TravelMode_value (travel_mode req))
        (max_travel_minutes req) = Inr (cands, s1)"
    unfolding suggest_venues_def Let_def by (auto split: sum.splits)
  show ?thesis
  proof (cases "cands = []")
    case True
    with assms h have "sgs = []"
      unfolding suggest_venues_def Let_def by auto
    with True h show ?thesis using that by blast
  next
    case False
    with assms h obtain txt0 where
      r: "rank_candidates e s1 req txt0 (suggest_cache_key e req) cands = Inr ((sgs, txt), s')"
      unfolding suggest_venues_def Let_def by auto
    from rank_candidates_Inr [OF r] have "txt = txt0" by metis
    with r False h show ?thesis using that by blast
  qed
qed

lemma length_slice_to: "0 \<le> n \<Longrightarrow> length (slice_to xs n) = min (nat n) (length xs)"
  by (simp add: slice_to_def)

lemma hard_filter_embeddings:
  assumes "get_hard_filtered_candidates e s cty d t olat olng mode maxm = Inr (cands, s1)"
  shows "venue_embeddings s1 = venue_embeddings s" "venue_slots s1 = venue_slots s"
    "bookings s1 = bookings s" "intent_embeddings s1 = intent_embeddings s"
    "suggest_cache s1 = suggest_cache s" "intent_vector_cache s1 = intent_vector_cache s"
proof -
  from hard_filter_props [OF assms refl]
  have st: "s1 = s\<lparr>travel_time_cache := travel_time_cache s1,
                   logs := logs s1, routing_calls := routing_calls s1\<rparr>" by blast
  show "venue_embeddings s1 = venue_embeddings s" using arg_cong [OF st, of venue_embeddings] by simp
  show "venue_slots s1 = venue_slots s" using arg_cong [OF st, of venue_slots] by simp
  show "bookings s1 = bookings s" using arg_cong [OF st, of bookings] by simp
  show "intent_embeddings s1 = intent_embeddings s" using arg_cong [OF st, of intent_embeddings] by simp
  show "suggest_cache s1 = suggest_cache s" using arg_cong [OF st, of suggest_cache] by simp
  show "intent_vector_cache s1 = intent_vector_cache s" using arg_cong [OF st, of intent_vector_cache] by simp
qed

lemma rank_candidates_neutral:
  assumes run: "rank_candidates e s req itxt key cands = Inr ((sgs, itxt'), s')"
      and g: "g \<in> set sgs"
      and un: "sg_venue_id g \<notin> ve_venue_id ` set (venue_embeddings s)"
  shows "sg_similarity_score g = 1 / 2"
proof -
  from run obtain sim s2 where
    sl: "similarity_layer e (s\<lparr>logs := logs s @ [Info_layer1_passed (length cands)]\<rparr>) req itxt
        (map (\<lambda>c. v_id (venue c)) cands) = Inr (sim, s2)"
    and each: "\<forall>g \<in> set sgs.
       sg_venue_id g \<in> set (map (\<lambda>c. v_id (venue c)) cands)
       \<and> sg_similarity_score g = py_round (default_to 0.5 (sim (sg_venue_id g))) 4
       \<and> (\<exists>c \<in> set cands. v_id (venue c) = sg_venue_id g
             \<and> sg_travel_minutes g = travel_minutes c
             \<and> sg_lat g = v_lat (venue c) \<and> sg_lng g = v_lng (venue c))"
    by (rule rank_candidates_suggestions)
  from each g have mem: "sg_venue_id g \<in> set (map (\<lambda>c. v_id (venue c)) cands)"
    and sc: "sg_similarity_score g = py_round (default_to 0.5 (sim (sg_venue_id g))) 4"
    by blast+
  from un have "sg_venue_id g \<notin> ve_venue_id ` set (venue_embeddings
      (s\<lparr>logs := logs s @ [Info_layer1_passed (length cands)]\<rparr>))" by simp
  from similarity_layer_unembedded [OF sl mem this] have "sim (sg_venue_id g) = Some (1 / 2)" .
  with sc show ?thesis by (simp add: default_to_def py_round_half)
qed

lemma rank_candidates_length:
  assumes run: "rank_candidates e s req itxt key cands = Inr ((sgs, itxt'), s')"
      and n: "0 \<le> top_n req"
  shows "length sgs = min (nat (top_n req)) (length cands)"
proof -
  from run obtain sim s2 where
    m: "map (\<lambda>g. (sg_final_score g, sg_venue_id g)) sgs =
       map (\<lambda>(sc, vid). (py_round sc 4, vid))
         (slice_to (scored_list sim
               (get_load_factors s2 (map (\<lambda>c. v_id (venue c)) cands) (date req) (time req))
               (map (\<lambda>c. v_id (venue c)) cands)) (top_n req))"
    by (rule rank_candidates_suggestions)
  from arg_cong [OF m, of length] n show ?thesis
    by (simp add: length_slice_to length_scored_list)
qed

lemma rank_candidates_no_embeddings:
  assumes un: "\<forall>c \<in> set cands. v_id (venue c) \<notin> ve_venue_id ` set (venue_embeddings s)"
  shows "\<exists>sgs s'. rank_candidates e s req itxt key cands = Inr ((sgs, itxt), s')
        \<and> (\<forall>g \<in> set sgs. sg_similarity_score g = 1 / 2)
        \<and> logs s' = logs s @ [Info_layer1_passed (length cands), Warning_no_embeddings]
        \<and> intent_embeddings s' = intent_embeddings s"
proof -
  define s1 where "s1 = s\<lparr>logs := logs s @ [Info_layer1_passed (length cands)]\<rparr>"
  define ids where "ids = map (\<lambda>c. v_id (venue c)) cands"
  have "\<forall>vid \<in> set ids. vid \<notin> ve_venue_id ` set (venue_embeddings s1)"
    using un by (auto simp: ids_def s1_def)
  from similarity_layer_no_embeddings [OF this]
  have sl: "similarity_layer e s1 req itxt ids =
           Inr (fold (\<lambda>vid m. m(vid \<mapsto> 0.5)) ids Map.empty,
                s1\<lparr>logs := logs s1 @ [Warning_no_embeddings]\<rparr>)" .
  from rank_candidates_total [OF sl [unfolded s1_def ids_def], of key]
  obtain sgs where
    r: "rank_candidates e s req itxt key cands =
           Inr ((sgs, itxt), s1\<lparr>logs := logs s1 @ [Warning_no_embeddings],
                  suggest_cache := cache_set e (suggest_cache (s1\<lparr>logs := logs s1 @ [Warning_no_embeddings]\<rparr>)) key (sgs, itxt)\<rparr>)"
    unfolding s1_def by auto
  have "\<forall>g \<in> set sgs. sg_similarity_score g = 1 / 2"
  proof
    fix g assume g: "g \<in> set sgs"
    from rank_candidates_suggestions [OF r] g
    have "sg_venue_id g \<in> set (map (\<lambda>c. v_id (venue c)) cands)" by metis
    then obtain c where "c \<in> set cands" "sg_venue_id g = v_id (venue c)" by auto
    with un have "sg_venue_id g \<notin> ve_venue_id ` set (venue_embeddings s)" by metis
    from rank_candidates_neutral [OF r g this] show "sg_similarity_score g = 1 / 2" .
  qed
  with r show ?thesis by (auto simp: s1_def)
qed

lemma bristol_fields:
  "venue_embeddings bristol_state =
         [\<lparr>ve_venue_id = 1, ve_embedding = [0.9, 0.3, 0.3, 0.1], ve_source_text = Some ''Venue: Venue A.''\<rparr>,
          \<lparr>ve_venue_id = 2, ve_embedding = [0.92, 0.32, 0.16, 0.16], ve_source_text = Some ''Venue: Venue B.''\<rparr>]"
  "intent_vector_cache bristol_state = Map.empty"
  "suggest_cache bristol_state = Map.empty"
  "intent_embeddings bristol_state = []"
  "logs bristol_state = []"
  "travel_time_cache bristol_state = []"
  "routing_calls bristol_state = []"
  "venues bristol_state = [venue_A, venue_B]"
  by (simp_all add: bristol_state_def empty_state_def)

lemma bristol_request_fields:
  "city bristol_request = ''Bristol''" "date bristol_request = wednesday"
  "time bristol_request = clock 19 0" "origin_lat bristol_request = Some bristol_lat"
  "origin_lng bristol_request = Some bristol_lng" "travel_mode bristol_request = drive"
  "max_travel_minutes bristol_request = 45" "top_n bristol_request = 3"
  "session_id bristol_request = None" "free_text bristol_request = None"
  by (simp_all add: bristol_request_def)

lemma sample_env_fields:
  "redis_up sample_env" "intent_log_commit_ok sample_env"
  "embed sample_env x = Inr [1, 0, 0, 0]"
  "cosine_distance sample_env = sample_cosine_distance"
  "settings sample_env = sample_settings"
  "now_utc sample_env = 1000"
  by (simp_all add: sample_env_def)

lemma sample_distances:
  "sample_cosine_distance [0.9, 0.3, 0.3, 0.1] [1, 0, 0, 0] = 0.1"
  "sample_cosine_distance [0.92, 0.32, 0.16, 0.16] [1, 0, 0, 0] = 0.08"
  by (simp_all add: sample_cosine_distance_def dot_def)

lemma zpad_numeral: "zpad (numeral k) n = zpad (pred_numeral k) (n div 10) @ [digit_char n]"
  using zpad.simps(2) [of "pred_numeral k" n] by (simp only: numeral_eq_Suc)

lemma date_str_wednesday: "date_str wednesday = ''2026-02-25''"
  by (simp add: wednesday_def date_str_def digit_char_def zpad_numeral)

lemma load_bristol:
  "load_of_venue bristol_state wednesday (clock 19 0) 1 = 0"
  "load_of_venue bristol_state wednesday (clock 19 0) 2 = 0.8"
  by (simp_all add: load_of_venue_def weekday_wednesday bristol_state_def empty_state_def
        sample_slot_fields sample_booking_def date_str_wednesday clock_def time_le_def time_lt_def time_key_def)


lemma abs_sin_small: assumes "\<bar>x\<bar> \<le> pi / 2" shows "\<bar>sin x\<bar> = sin \<bar>x\<bar>"
proof (cases "0 \<le> x")
  case True
  then have "0 \<le> sin x" using assms by (intro sin_ge_zero) auto
  with True show ?thesis by simp
next
  case False
  then have "0 \<le> sin (- x)" using assms by (intro sin_ge_zero) auto
  with False show ?thesis by simp
qed

text \<open>Along a meridian the haversine distance is the arc of the difference in latitude.\<close>

lemma haversine_km_same_lng:
  assumes "\<bar>d\<bar> \<le> 180"
  shows "haversine_km a b (a + d) b = 6371 * radians \<bar>d\<bar>"
proof -
  have h: "\<bar>radians d / 2\<bar> \<le> pi / 2"
    using assms by (simp add: radians_def abs_mult)
  have "arcsin (sqrt ((sin (radians d / 2))\<^sup>2)) = arcsin \<bar>sin (radians d / 2)\<bar>"
    by simp
  also have "\<bar>sin (radians d / 2)\<bar> = sin \<bar>radians d / 2\<bar>"
    using h by (rule abs_sin_small)
  also have "arcsin (sin \<bar>radians d / 2\<bar>) = \<bar>radians d / 2\<bar>"
    using h by (intro arcsin_sin) auto
  finally have E: "arcsin (sqrt ((sin (radians d / 2))\<^sup>2)) = \<bar>radians d / 2\<bar>" .
  have r0: "radians 0 = 0" by (simp add: radians_def)
  have "haversine_km a b (a + d) b = 6371 * 2 * arcsin (sqrt ((sin (radians d / 2))\<^sup>2))"
    by (simp add: haversine_km_def Let_def r0)
  also have "\<dots> = 6371 * 2 * \<bar>radians d / 2\<bar>" by (simp only: E)
  also have "\<dots> = 6371 * radians \<bar>d\<bar>" by (simp add: radians_def abs_mult)
  finally show ?thesis .
qed

lemma haversine_km_one_thousandth:
  "haversine_km a b (a + 0.001) b \<le> 1" "haversine_km (a + 0.001) b a b \<le> 1"
proof -
  have "pi / 180000 * 6371 \<le> 4 / 180000 * 6371"
    using pi_less_4 by (intro mult_right_mono divide_right_mono) auto
  then have r: "6371 * radians 0.001 \<le> 1" by (simp add: radians_def)
  from haversine_km_same_lng [of "0.001" a b] r show "haversine_km a b (a + 0.001) b \<le> 1"
    by simp
  from haversine_km_same_lng [of "- 0.001" "a + 0.001" b] r show "haversine_km (a + 0.001) b a b \<le> 1"
    by simp
qed

lemma venue_AB_fields:
  "v_id venue_A = 1" "v_lat venue_A = Some bristol_lat" "v_lng venue_A = Some bristol_lng"
  "v_id venue_B = 2" "v_lat venue_B = Some (bristol_lat + 0.001)" "v_lng venue_B = Some bristol_lng"
  "v_city venue_A = ''Bristol''" "v_city venue_B = ''Bristol''"
  "v_is_active venue_A" "v_is_active venue_B"
  by (simp_all add: venue_A_def venue_B_def sample_venue_def)

lemma max_radius_drive_45: "max_radius_km ''drive'' 45 = 40.5"
  by (simp add: max_radius_km_def SPEED_KM_PER_MIN_def SAFETY_FACTOR_def)

lemma prefilter_bristol:
  "prefilter_by_distance [venue_A, venue_B] bristol_lat bristol_lng ''drive'' 45 = [venue_A, venue_B]"
proof -
  have "haversine_km bristol_lat bristol_lng (bristol_lat + 0.001) bristol_lng \<le> 40.5"
    using haversine_km_one_thousandth(1) [of bristol_lat bristol_lng] by simp
  then show ?thesis
    by (simp add: prefilter_by_distance_def within_radius_def venue_AB_fields haversine_km_self
          max_radius_drive_45)
qed

lemma coords_nonzero: "bristol_lat \<noteq> 0" "bristol_lng \<noteq> 0" "bristol_lat + 0.001 \<noteq> 0"
  by (simp_all add: bristol_lat_def bristol_lng_def)

lemma open_bristol:
  "select_open_venues sample_env bristol_state ''Bristol'' 2 (clock 19 0) = [venue_A, venue_B]"
  by (simp add: select_open_venues_def bristol_state_def empty_state_def slot_matches_sample
        venue_AB_fields ilike_sample sample_slot_fields)

lemma blacked_out_bristol: "blacked_out bristol_state d = {}"
  by (simp add: blacked_out_def bristol_state_def empty_state_def)

lemma tomtom_minutes_route: "tomtom_minutes (route_json (JNum 600)) = Inr 10"
  by (simp add: tomtom_minutes_def route_json_def bind_err_def py_round_def round_half_even_def)

lemma sample_env_routing:
  "ROUTING_PROVIDER (settings sample_env) = ''tomtom''"
  "tomtom_get sample_env origin destination m =
     Inr \<lparr>status_code = 200, body = Inr (route_json (JNum 600))\<rparr>"
  by (simp_all add: sample_env_def sample_settings_def)

lemma fetch_tomtom_sample: "fetch_tomtom sample_env origin destination mode = Inr (Some 10)"
  by (simp add: fetch_tomtom_def sample_env_routing except_Key_Index_def tomtom_minutes_route)

lemma hard_bristol:
  "map_sum id fst (get_hard_filtered_candidates sample_env bristol_state ''Bristol'' wednesday
       (clock 19 0) (Some bristol_lat) (Some bristol_lng) ''drive'' 45)
     = Inr [\<lparr>venue = venue_A, travel_minutes = Some 10\<rparr>,
            \<lparr>venue = venue_B, travel_minutes = Some 10\<rparr>]"
  using coords_nonzero
  by (simp add: get_hard_filtered_candidates_def weekday_wednesday open_bristol blacked_out_bristol
        prefilter_bristol asks_travel_time_def truthy_def venue_AB_fields
        get_travel_time_def scalar_one_or_none_def same_cache_key_def call_provider_def
        fetch_tomtom_sample sample_env_routing bristol_fields Let_def)

lemma rank_bristol:
  "map_sum id (\<lambda>r. map (\<lambda>g. (sg_venue_id g, sg_similarity_score g, sg_load_factor g,
                                 sg_final_score g, sg_travel_minutes g)) (fst (fst r)))
     (rank_candidates sample_env (bristol_state\<lparr>travel_time_cache := tc, logs := l, routing_calls := rc\<rparr>)
        bristol_request itxt key
        [\<lparr>venue = venue_A, travel_minutes = Some 10\<rparr>, \<lparr>venue = venue_B, travel_minutes = Some 10\<rparr>])
   = Inr [(2, 0.08, 0.8, 0.0992, Some 10), (1, 0.1, 0, 0.1, Some 10)]"
  by (simp add: rank_candidates_def similarity_layer_def get_intent_vector_def cache_get_def
        cache_set_def find_similar_venues_def bristol_fields sample_env_fields
        sample_cosine_distance_def dot_def Let_def get_load_factors_def load_bristol
        load_of_venue_frame log_intent_embedding_def scored_list_def final_score_def
        default_to_def MAX_LOAD_PENALTY_def slice_to_def make_suggestion_def py_round_def
        round_half_even_def venue_AB_fields bristol_request_fields)

lemma load_of_venue_bounds: "0 \<le> load_of_venue s d t vid \<and> load_of_venue s d t vid \<le> 1"
proof -
  have "0 \<le> real n / real_of_int (max c 1)" for n :: nat and c :: int
    by (intro divide_nonneg_nonneg) auto
  then show ?thesis
    by (auto simp: load_of_venue_def Let_def split: list.splits)
qed

lemma get_load_factors_lookup:
  "get_load_factors s ids d t vid =
     (if vid \<in> set ids then Some (load_of_venue s d t vid) else None)"
  by (simp add: get_load_factors_def fold_upd_lookup)

lemma load_factor_bounds:
  "0 \<le> default_to 0 (get_load_factors s ids d t vid)
   \<and> default_to 0 (get_load_factors s ids d t vid) \<le> 1"
  using load_of_venue_bounds [of s d t vid]
  by (simp add: get_load_factors_lookup default_to_def)

lemma sorted_map_fst:
  fixes xs :: "(real \<times> int) list"
  shows "sorted xs \<Longrightarrow> sorted (map fst xs)"
  by (induction xs) (auto simp: less_eq_prod_def)

lemma parse_SuggestRequest_top_n:
  assumes "parse_SuggestRequest p = Inr req"
  shows "1 \<le> top_n req \<and> top_n req \<le> 10 \<and> top_n req = default_to 3 (p_top_n p)"
  using assms
  by (auto simp: parse_SuggestRequest_def Let_def split: option.splits if_splits)

lemma final_score_formula:
  "final_score sim lf vid = default_to 0.5 (sim vid) * (1 + default_to 0 (lf vid) * 0.3)"
  by (simp add: final_score_def MAX_LOAD_PENALTY_def)

section \<open>The radius of the geo prefilter (C5)\<close>

text \<open>
  C5. The radius is speed(mode) * max_minutes * 1.8, the speed being 0.083 for walk,
  0.5 for drive, 0.4 for transit and 0.5 for any other mode; so the radius does not
  decrease when the budget grows, and a venue kept by the prefilter at budget m1 is
  kept at every budget m2 \<ge> m1, for every origin and mode.
\<close>

theorem C5_radius_formula_and_monotone:
  "max_radius_km mode m =
     (if mode = ''walk'' then 0.083 else if mode = ''drive'' then 0.5
      else if mode = ''transit'' then 0.4 else 0.5) * of_int m * 1.8
   \<and> (m1 \<le> m2 \<longrightarrow>
        max_radius_km mode m1 \<le> max_radius_km mode m2
        \<and> set (prefilter_by_distance vs olat olng mode m1)
            \<subseteq> set (prefilter_by_distance vs olat olng mode m2))"
proof (intro conjI impI)
  show "max_radius_km mode m =
     (if mode = ''walk'' then 0.083 else if mode = ''drive'' then 0.5
      else if mode = ''transit'' then 0.4 else 0.5) * of_int m * 1.8"
    unfolding max_radius_km_def speed_cases SAFETY_FACTOR_def by (rule refl)
next
  assume "m1 \<le> m2"
  then show "max_radius_km mode m1 \<le> max_radius_km mode m2"
    by (rule max_radius_km_mono)
next
  assume le: "m1 \<le> m2"
  show "set (prefilter_by_distance vs olat olng mode m1)
            \<subseteq> set (prefilter_by_distance vs olat olng mode m2)"
    using within_radius_mono [OF max_radius_km_mono [OF le]]
    by (auto simp: prefilter_by_distance_def Let_def)
qed

theorem C5_witness:
  "max_radius_km ''walk'' 10 = 0.083 * 10 * 1.8
   \<and> (10::int) \<le> 45
   \<and> max_radius_km ''walk'' 10 \<le> max_radius_km ''walk'' 45
   \<and> venue_A \<in> set (prefilter_by_distance [venue_A] bristol_lat bristol_lng ''walk'' 10)
   \<and> venue_A \<in> set (prefilter_by_distance [venue_A] bristol_lat bristol_lng ''walk'' 45)"
proof -
  have le: "(10::int) \<le> 45" by simp
  have r10: "max_radius_km ''walk'' 10 = 0.083 * 10 * 1.8"
    using C5_radius_formula_and_monotone [of "''walk''" 10] by simp
  have in10: "venue_A \<in> set (prefilter_by_distance [venue_A] bristol_lat bristol_lng ''walk'' 10)"
    by (simp add: prefilter_by_distance_def within_radius_def venue_A_def sample_venue_def
          haversine_km_self r10)
  from C5_radius_formula_and_monotone [of "''walk''" 10 10 45 "[venue_A]" bristol_lat bristol_lng] le
  have mono: "max_radius_km ''walk'' 10 \<le> max_radius_km ''walk'' 45"
    and sub: "set (prefilter_by_distance [venue_A] bristol_lat bristol_lng ''walk'' 10)
            \<subseteq> set (prefilter_by_distance [venue_A] bristol_lat bristol_lng ''walk'' 45)"
    by blast+
  from in10 sub have "venue_A \<in> set (prefilter_by_distance [venue_A] bristol_lat bristol_lng ''walk'' 45)"
    by blast
  with le r10 mono in10 show ?thesis by blast
qed

section \<open>The availability filter and the suggest cache (C2)\<close>

lemma date_le_antisym: "date_le a b \<Longrightarrow> date_le b a \<Longrightarrow> a = b"
  by (cases a, cases b) (auto simp: date_le_def)

lemma date_le_refl: "date_le a a"
  by (simp add: date_le_def)

lemma date_le_sample:
  "date_le wednesday wednesday" "date_le thursday thursday"
  "date_le wednesday thursday" "\<not> date_le thursday wednesday"
  by (simp_all add: date_le_def wednesday_def thursday_def)

lemma suggest_wednesday:
  "map_sum id (\<lambda>r. map (\<lambda>g. (sg_venue_id g, sg_similarity_score g, sg_load_factor g, sg_final_score g)) (fst (fst r)))
     (suggest_venues sample_env availability_state wednesday_request) = Inr [(1, 0.5, 0, 0.5)]"
  by (simp add: suggest_venues_def cache_get_def avail_fields req_fields hard_wednesday
        rank_wednesday)

lemma spec_available_sample:
  "spec_available availability_state wednesday (clock 19 0) venue_A"
  "\<not> spec_available availability_state wednesday (clock 19 0) venue_C"
  "\<not> spec_available availability_state wednesday (clock 19 0) venue_D"
  "\<not> spec_available availability_state wednesday (clock 19 0) venue_E"
  "\<not> spec_available availability_state wednesday (clock 19 0) venue_F"
  "spec_available availability_state thursday (clock 19 0) venue_D"
  by (simp_all add: spec_available_def availability_state_def empty_state_def weekday_wednesday
        weekday_thursday venue_A_def venue_C_def venue_D_def venue_E_def venue_F_def
        sample_venue_def sample_slot_def clock_def time_le_def time_lt_def time_key_def
        date_le_sample)

text \<open>
  The availability filter on the path that computes the answer. A venue is among the
  candidates of the hard filter, and among the suggestions computed for a request
  whose key is not in the suggest cache, only if it is an active venue with an active slot on the
  weekday of the date whose half-open interval [start_time, end_time) contains the
  time, and with no blackout such that start_date \<le> date \<le> end_date. A slot whose
  end_time is the requested time never matches; a blackout of the single day d covers d
  and no other day.
\<close>

lemma availability_hard_filter_computed:
  "(get_hard_filtered_candidates e s cty d t olat olng mode maxm = Inr (cands, s1) \<longrightarrow>
      (\<forall>c \<in> set cands. venue c \<in> set (venues s) \<and> spec_available s d t (venue c)))
   \<and> (cache_get e (suggest_cache s) (suggest_cache_key e req) = None
        \<and> suggest_venues e s req = Inr ((sgs, itxt), s') \<longrightarrow>
      (\<forall>g \<in> set sgs. \<exists>v \<in> set (venues s).
          v_id v = sg_venue_id g \<and> spec_available s (date req) (time req) v))
   \<and> (vs_end_time sl = t \<longrightarrow> \<not> slot_matches wd t sl)
   \<and> (covers d' \<lparr>vb_venue_id = i, vb_start_date = d, vb_end_date = d\<rparr> \<longleftrightarrow> d' = d)"
proof (intro conjI impI ballI)
  fix c
  assume "get_hard_filtered_candidates e s cty d t olat olng mode maxm = Inr (cands, s1)"
    and "c \<in> set cands"
  then have "venue c \<in> set (venues s) \<and> spec_available s d t (venue c)"
    by (rule hard_filter_available)
  then show "venue c \<in> set (venues s)" and "spec_available s d t (venue c)" by simp_all
next
  fix g
  assume a: "cache_get e (suggest_cache s) (suggest_cache_key e req) = None
        \<and> suggest_venues e s req = Inr ((sgs, itxt), s')" and g: "g \<in> set sgs"
  from a obtain cands s1 where
    h: "get_hard_filtered_candidates e s (city req) (date req) (time req)
        (origin_lat req) (origin_lng req) (TravelMode_value (travel_mode req))
        (max_travel_minutes req) = Inr (cands, s1)"
    and e: "cands = [] \<longrightarrow> sgs = []"
    and r: "cands \<noteq> [] \<longrightarrow> rank_candidates e s1 req itxt (suggest_cache_key e req) cands = Inr ((sgs, itxt), s')"
    by (elim conjE suggest_venues_miss)
  from e g have "cands \<noteq> []" by auto
  with r have "rank_candidates e s1 req itxt (suggest_cache_key e req) cands = Inr ((sgs, itxt), s')"
    by simp
  then obtain c where "c \<in> set cands" "v_id (venue c) = sg_venue_id g"
    using g by (elim rank_candidates_suggestions) blast
  with hard_filter_available [OF h]
  show "\<exists>v \<in> set (venues s). v_id v = sg_venue_id g \<and> spec_available s (date req) (time req) v"
    by blast
next
  assume "vs_end_time sl = t"
  then show "\<not> slot_matches wd t sl"
    by (simp add: slot_matches_def time_lt_def)
next
  show "covers d' \<lparr>vb_venue_id = i, vb_start_date = d, vb_end_date = d\<rparr> \<longleftrightarrow> d' = d"
    by (auto simp: covers_def date_le_refl dest: date_le_antisym)
qed

lemma availability_hard_filter_sample:
  "(\<exists>sgs txt s'. suggest_venues sample_env availability_state wednesday_request = Inr ((sgs, txt), s')
       \<and> map sg_venue_id sgs = [1]
       \<and> (\<forall>g \<in> set sgs. \<exists>v \<in> set (venues availability_state).
             v_id v = sg_venue_id g \<and> spec_available availability_state wednesday (clock 19 0) v))
   \<and> spec_available availability_state wednesday (clock 19 0) venue_A
   \<and> \<not> spec_available availability_state wednesday (clock 19 0) venue_C
   \<and> \<not> spec_available availability_state wednesday (clock 19 0) venue_D
   \<and> \<not> spec_available availability_state wednesday (clock 19 0) venue_E
   \<and> \<not> spec_available availability_state wednesday (clock 19 0) venue_F
   \<and> spec_available availability_state thursday (clock 19 0) venue_D
   \<and> \<not> slot_matches 2 (clock 19 0) (sample_slot 30 3 2 (clock 18 0) (clock 19 0))
   \<and> covers wednesday \<lparr>vb_venue_id = 4, vb_start_date = wednesday, vb_end_date = wednesday\<rparr>
   \<and> \<not> covers thursday \<lparr>vb_venue_id = 4, vb_start_date = wednesday, vb_end_date = wednesday\<rparr>"
proof -
  from suggest_wednesday obtain sgs itxt s' where
    run: "suggest_venues sample_env availability_state wednesday_request = Inr ((sgs, itxt), s')"
    and ids: "map sg_venue_id sgs = [1]"
    by (cases "suggest_venues sample_env availability_state wednesday_request") auto
  have miss: "cache_get sample_env (suggest_cache availability_state)
                (suggest_cache_key sample_env wednesday_request) = None"
    by (simp add: cache_get_def avail_fields)
  note inst = availability_hard_filter_computed [where e = sample_env and s = availability_state
      and req = wednesday_request and sgs = sgs and itxt = itxt and s' = s'
      and sl = "sample_slot 30 3 2 (clock 18 0) (clock 19 0)" and t = "clock 19 0" and wd = 2
      and d = wednesday and i = 4]
  from inst miss run have all:
    "\<forall>g \<in> set sgs. \<exists>v \<in> set (venues availability_state).
        v_id v = sg_venue_id g \<and> spec_available availability_state wednesday (clock 19 0) v"
    by (simp add: req_fields)
  from inst have f1: "\<not> slot_matches 2 (clock 19 0) (sample_slot 30 3 2 (clock 18 0) (clock 19 0))"
    by (simp add: sample_slot_fields)
  from inst [where d' = wednesday]
  have f2: "covers wednesday \<lparr>vb_venue_id = 4, vb_start_date = wednesday, vb_end_date = wednesday\<rparr>"
    by simp
  from inst [where d' = thursday]
  have f3: "\<not> covers thursday \<lparr>vb_venue_id = 4, vb_start_date = wednesday, vb_end_date = wednesday\<rparr>"
    by (simp add: wednesday_def thursday_def)
  have ex: "\<exists>sgs txt s'. suggest_venues sample_env availability_state wednesday_request = Inr ((sgs, txt), s')
       \<and> map sg_venue_id sgs = [1]
       \<and> (\<forall>g \<in> set sgs. \<exists>v \<in> set (venues availability_state).
             v_id v = sg_venue_id g \<and> spec_available availability_state wednesday (clock 19 0) v)"
    using run ids all by (intro exI conjI)
  show ?thesis
    by (intro conjI ex spec_available_sample f1 f2 f3)
qed

lemma suggest_venues_hit:
  assumes "cache_get e (suggest_cache s) (suggest_cache_key e req) = Some (sgs, itxt)"
  shows "suggest_venues e s req = Inr ((sgs, itxt), s\<lparr>logs := logs s @ [Info_suggest_cache_hit]\<rparr>)"
  using assms by (simp add: suggest_venues_def Let_def)

lemma tables_kept_3:
  "s' = s\<lparr>travel_time_cache := a, logs := b, routing_calls := c\<rparr> \<Longrightarrow>
     (venues s', venue_slots s', venue_blackouts s', bookings s', venue_embeddings s')
       = (venues s, venue_slots s, venue_blackouts s, bookings s, venue_embeddings s)"
  "s' = s\<lparr>intent_embeddings := x, intent_vector_cache := y, logs := b\<rparr> \<Longrightarrow>
     (venues s', venue_slots s', venue_blackouts s', bookings s', venue_embeddings s')
       = (venues s, venue_slots s, venue_blackouts s, bookings s, venue_embeddings s)"
  by simp_all

lemma suggest_venues_frame:
  assumes "suggest_venues e s req = Inr (r, s')"
  shows "(venues s', venue_slots s', venue_blackouts s', bookings s', venue_embeddings s')
       = (venues s, venue_slots s, venue_blackouts s, bookings s, venue_embeddings s)"
proof (cases "cache_get e (suggest_cache s) (suggest_cache_key e req)")
  case (Some p)
  obtain sgs itxt where p: "p = (sgs, itxt)" by (cases p)
  from suggest_venues_hit [OF Some [unfolded p]] assms
  have "s' = s\<lparr>logs := logs s @ [Info_suggest_cache_hit]\<rparr>" by simp
  then show ?thesis by simp
next
  case None
  obtain sgs itxt where r: "r = (sgs, itxt)" by (cases r)
  from suggest_venues_miss [OF None assms [unfolded r]] obtain cands s1 where
    h: "get_hard_filtered_candidates e s (city req) (date req) (time req)
        (origin_lat req) (origin_lng req) (TravelMode_value (travel_mode req))
        (max_travel_minutes req) = Inr (cands, s1)"
    and rk: "cands \<noteq> [] \<longrightarrow> rank_candidates e s1 req itxt (suggest_cache_key e req) cands
               = Inr ((sgs, itxt), s')"
    by blast
  from hard_filter_props [OF h refl]
  have "s1 = s\<lparr>travel_time_cache := travel_time_cache s1,
                   logs := logs s1, routing_calls := routing_calls s1\<rparr>" by blast
  note t1 = tables_kept_3(1) [OF this]
  show ?thesis
  proof (cases "cands = []")
    case True
    with assms None h have "s' = s1\<lparr>logs := logs s1 @ [Info_no_candidates]\<rparr>"
      by (simp add: suggest_venues_def Let_def)
    then have "(venues s', venue_slots s', venue_blackouts s', bookings s', venue_embeddings s')
       = (venues s1, venue_slots s1, venue_blackouts s1, bookings s1, venue_embeddings s1)"
      by simp
    with t1 show ?thesis by simp
  next
    case False
    with rk have "rank_candidates e s1 req itxt (suggest_cache_key e req) cands
               = Inr ((sgs, itxt), s')" by simp
    from rank_candidates_Inr [OF this] obtain sim s2 where
      sl: "similarity_layer e (s1\<lparr>logs := logs s1 @ [Info_layer1_passed (length cands)]\<rparr>) req itxt
        (map (\<lambda>c. v_id (venue c)) cands) = Inr (sim, s2)"
      and s': "s' = s2\<lparr>suggest_cache := cache_set e (suggest_cache s2) (suggest_cache_key e req) (sgs, itxt)\<rparr>"
      by blast
    from tables_kept_3(2) [OF similarity_layer_state [OF sl]]
    have t2: "(venues s2, venue_slots s2, venue_blackouts s2, bookings s2, venue_embeddings s2)
       = (venues s1, venue_slots s1, venue_blackouts s1, bookings s1, venue_embeddings s1)"
      by simp
    from s' have "(venues s', venue_slots s', venue_blackouts s', bookings s', venue_embeddings s')
       = (venues s2, venue_slots s2, venue_blackouts s2, bookings s2, venue_embeddings s2)"
      by simp
    with t1 t2 show ?thesis by simp
  qed
qed

lemma suggest_venues_stores:
  assumes miss: "cache_get e (suggest_cache s) (suggest_cache_key e req) = None"
      and run: "suggest_venues e s req = Inr ((sgs, itxt), s')"
      and ne: "sgs \<noteq> []" and up: "redis_up e"
  shows "cache_get e (suggest_cache s') (suggest_cache_key e req) = Some (sgs, itxt)"
proof -
  from suggest_venues_miss [OF miss run] obtain cands s1 where
    e: "cands = [] \<longrightarrow> sgs = []"
    and rk: "cands \<noteq> [] \<longrightarrow> rank_candidates e s1 req itxt (suggest_cache_key e req) cands
               = Inr ((sgs, itxt), s')"
    by blast
  from e ne rk have "rank_candidates e s1 req itxt (suggest_cache_key e req) cands
               = Inr ((sgs, itxt), s')" by blast
  from rank_candidates_Inr [OF this] obtain s2 where
    "s' = s2\<lparr>suggest_cache := cache_set e (suggest_cache s2) (suggest_cache_key e req) (sgs, itxt)\<rparr>"
    by blast
  then have "suggest_cache s' = cache_set e (suggest_cache s2) (suggest_cache_key e req) (sgs, itxt)"
    by simp
  with up show ?thesis by (simp add: cache_get_def cache_set_def)
qed

lemma cached_state_run:
  obtains sgs itxt where
    "suggest_venues sample_env availability_state wednesday_request = Inr ((sgs, itxt), cached_state)"
    "map sg_venue_id sgs = [1]"
proof -
  from suggest_wednesday obtain sgs itxt s' where
    run: "suggest_venues sample_env availability_state wednesday_request = Inr ((sgs, itxt), s')"
    and ids: "map sg_venue_id sgs = [1]"
    by (cases "suggest_venues sample_env availability_state wednesday_request") auto
  from run have "s' = cached_state" by (simp add: cached_state_def)
  with run have "suggest_venues sample_env availability_state wednesday_request
                   = Inr ((sgs, itxt), cached_state)" by simp
  then show ?thesis using ids by (rule that)
qed

lemma cached_state_tables:
  "venues cached_state = [venue_A, venue_C, venue_D, venue_E, venue_F]"
  "venue_blackouts cached_state
     = [\<lparr>vb_venue_id = 4, vb_start_date = wednesday, vb_end_date = wednesday\<rparr>]"
  "venue_slots cached_state = venue_slots availability_state"
proof -
  from cached_state_run obtain sgs itxt where
    "suggest_venues sample_env availability_state wednesday_request = Inr ((sgs, itxt), cached_state)"
    by blast
  from suggest_venues_frame [OF this]
  show "venues cached_state = [venue_A, venue_C, venue_D, venue_E, venue_F]"
    "venue_blackouts cached_state
     = [\<lparr>vb_venue_id = 4, vb_start_date = wednesday, vb_end_date = wednesday\<rparr>]"
    "venue_slots cached_state = venue_slots availability_state"
    by (simp_all add: availability_state_def empty_state_def)
qed

lemma add_blackout_cached:
  "add_venue_blackout cached_state 1 wednesday wednesday =
     Inr (cached_state\<lparr>venue_blackouts :=
            [\<lparr>vb_venue_id = 4, vb_start_date = wednesday, vb_end_date = wednesday\<rparr>,
             \<lparr>vb_venue_id = 1, vb_start_date = wednesday, vb_end_date = wednesday\<rparr>]\<rparr>)"
  by (simp add: add_venue_blackout_def cached_state_tables scalar_one_or_none_def date_lt_def
        venue_A_def venue_C_def venue_D_def venue_E_def venue_F_def sample_venue_fields)

text \<open>
  C2, where the code leaves it. The Wednesday request is answered with venue A and the
  answer is cached; the admin then blacks venue A out for that Wednesday, which leaves
  the cache as it is; the same request is then answered from the cache with venue A,
  which at that moment is blacked out on the requested date.
\<close>

theorem C2_stale_cache_after_blackout:
  "map_sum id (map sg_venue_id \<circ> fst \<circ> fst)
     (suggest_venues sample_env availability_state wednesday_request) = Inr [1]
   \<and> map_sum id snd (suggest_venues sample_env availability_state wednesday_request)
       = Inr cached_state
   \<and> add_venue_blackout cached_state 1 wednesday wednesday = Inr stale_state
   \<and> venues stale_state = [venue_A, venue_C, venue_D, venue_E, venue_F]
   \<and> v_id venue_A = 1
   \<and> covers wednesday \<lparr>vb_venue_id = 1, vb_start_date = wednesday, vb_end_date = wednesday\<rparr>
   \<and> blacked_out stale_state wednesday = {1, 4}
   \<and> \<not> spec_available stale_state wednesday (clock 19 0) venue_A
   \<and> map_sum id (map sg_venue_id \<circ> fst \<circ> fst)
       (suggest_venues sample_env stale_state wednesday_request) = Inr [1]"
proof -
  from cached_state_run obtain sgs itxt where
    run: "suggest_venues sample_env availability_state wednesday_request
            = Inr ((sgs, itxt), cached_state)"
    and ids: "map sg_venue_id sgs = [1]" by blast
  have miss: "cache_get sample_env (suggest_cache availability_state)
                (suggest_cache_key sample_env wednesday_request) = None"
    by (simp add: cache_get_def avail_fields)
  from ids have ne: "sgs \<noteq> []" by auto
  have up: "redis_up sample_env" by (simp add: sample_env_def)
  note stored = suggest_venues_stores [OF miss run ne up]
  have stale: "stale_state = cached_state\<lparr>venue_blackouts :=
            [\<lparr>vb_venue_id = 4, vb_start_date = wednesday, vb_end_date = wednesday\<rparr>,
             \<lparr>vb_venue_id = 1, vb_start_date = wednesday, vb_end_date = wednesday\<rparr>]\<rparr>"
    by (simp add: stale_state_def add_blackout_cached)
  have c1: "map_sum id (map sg_venue_id \<circ> fst \<circ> fst)
     (suggest_venues sample_env availability_state wednesday_request) = Inr [1]"
    using run ids by simp
  have c2: "map_sum id snd (suggest_venues sample_env availability_state wednesday_request)
       = Inr cached_state"
    using run by simp
  have c3: "add_venue_blackout cached_state 1 wednesday wednesday = Inr stale_state"
    by (simp add: stale add_blackout_cached)
  have c4: "venues stale_state = [venue_A, venue_C, venue_D, venue_E, venue_F]"
    by (simp add: stale cached_state_tables)
  have c5: "v_id venue_A = 1" by (simp add: venue_A_def sample_venue_fields)
  have c6: "covers wednesday \<lparr>vb_venue_id = 1, vb_start_date = wednesday, vb_end_date = wednesday\<rparr>"
    by (simp add: covers_def date_le_refl)
  have c7: "blacked_out stale_state wednesday = {1, 4}"
    by (auto simp: stale blacked_out_def covers_def date_le_refl)
  have c8: "\<not> spec_available stale_state wednesday (clock 19 0) venue_A"
    by (simp add: spec_available_def stale c5 date_le_refl)
  have "cache_get sample_env (suggest_cache stale_state)
          (suggest_cache_key sample_env wednesday_request) = Some (sgs, itxt)"
    using stored by (simp add: stale)
  from suggest_venues_hit [OF this] ids
  have c9: "map_sum id (map sg_venue_id \<circ> fst \<circ> fst)
       (suggest_venues sample_env stale_state wednesday_request) = Inr [1]"
    by simp
  show ?thesis
    by (intro conjI c1 c2 c3 c4 c5 c6 c7 c8 c9)
qed

section \<open>Final score and ranking (C1)\<close>

lemma suggest_bristol:
  "map_sum id (\<lambda>r. map (\<lambda>g. (sg_venue_id g, sg_similarity_score g, sg_load_factor g,
                                 sg_final_score g, sg_travel_minutes g)) (fst (fst r)))
     (suggest_venues sample_env bristol_state bristol_request)
   = Inr [(2, 0.08, 0.8, 0.0992, Some 10), (1, 0.1, 0, 0.1, Some 10)]"
proof -
  from hard_bristol obtain s1 where
    h: "get_hard_filtered_candidates sample_env bristol_state ''Bristol'' wednesday
       (clock 19 0) (Some bristol_lat) (Some bristol_lng) ''drive'' 45
        = Inr ([\<lparr>venue = venue_A, travel_minutes = Some 10\<rparr>,
                \<lparr>venue = venue_B, travel_minutes = Some 10\<rparr>], s1)"
    by (cases "get_hard_filtered_candidates sample_env bristol_state ''Bristol'' wednesday
       (clock 19 0) (Some bristol_lat) (Some bristol_lng) ''drive'' 45") auto
  from hard_filter_props [OF h refl]
  have s1: "s1 = bristol_state\<lparr>travel_time_cache := travel_time_cache s1,
                   logs := logs s1, routing_calls := routing_calls s1\<rparr>" by blast
  have miss: "cache_get sample_env (suggest_cache bristol_state)
                (suggest_cache_key sample_env bristol_request) = None"
    by (simp add: cache_get_def bristol_fields)
  have "suggest_venues sample_env bristol_state bristol_request =
          rank_candidates sample_env s1 bristol_request
            (build_intent_text ''first_date'' ''romantic'' ''low'' ''mid'' ''Bristol'' [])
            (suggest_cache_key sample_env bristol_request)
            [\<lparr>venue = venue_A, travel_minutes = Some 10\<rparr>,
             \<lparr>venue = venue_B, travel_minutes = Some 10\<rparr>]"
    using miss h
    by (simp add: suggest_venues_def bristol_request_fields default_to_def
          bristol_request_def [THEN arg_cong, of stage] bristol_request_def [THEN arg_cong, of mood]
          bristol_request_def [THEN arg_cong, of energy] bristol_request_def [THEN arg_cong, of budget])
  also have "\<dots> = rank_candidates sample_env
            (bristol_state\<lparr>travel_time_cache := travel_time_cache s1,
                   logs := logs s1, routing_calls := routing_calls s1\<rparr>) bristol_request
            (build_intent_text ''first_date'' ''romantic'' ''low'' ''mid'' ''Bristol'' [])
            (suggest_cache_key sample_env bristol_request)
            [\<lparr>venue = venue_A, travel_minutes = Some 10\<rparr>,
             \<lparr>venue = venue_B, travel_minutes = Some 10\<rparr>]"
    using s1 by simp
  finally show ?thesis by (simp only: rank_bristol)
qed

text \<open>
  C1. For the candidates that reach the ranking, every entry of the scored list is
  similarity * (1 + load_factor * 0.3), where a missing similarity counts 0.5 and the
  load factor lies in [0, 1], so that the multiplier is at most 1.3; the scored list is
  sorted ascending; the suggestions are its first top_n entries (scores rounded to four
  decimals for display), and top_n is the request's value, between 1 and 10, or 3 when
  the request gives none.
\<close>

theorem C1_final_score_and_ranking:
  assumes parse: "parse_SuggestRequest p = Inr req"
      and rank: "rank_candidates e s req itxt key cands = Inr ((sgs, itxt'), s')"
  shows "\<exists>sim s2.
      similarity_layer e (s\<lparr>logs := logs s @ [Info_layer1_passed (length cands)]\<rparr>) req itxt
          (map (\<lambda>c. v_id (venue c)) cands) = Inr (sim, s2)
      \<and> (let ids = map (\<lambda>c. v_id (venue c)) cands;
              lf = get_load_factors s2 ids (date req) (time req);
              scored = scored_list sim lf ids
          in (\<forall>vid \<in> set ids.
                 (default_to 0.5 (sim vid) * (1 + default_to 0 (lf vid) * 0.3), vid) \<in> set scored
                 \<and> 0 \<le> default_to 0 (lf vid) \<and> default_to 0 (lf vid) \<le> 1
                 \<and> 1 + default_to 0 (lf vid) * 0.3 \<le> 1.3)
             \<and> (\<forall>x \<in> set scored. \<exists>vid \<in> set ids.
                   x = (default_to 0.5 (sim vid) * (1 + default_to 0 (lf vid) * 0.3), vid))
             \<and> length scored = length ids
             \<and> sorted scored \<and> sorted (map fst scored)
             \<and> map (\<lambda>g. (sg_final_score g, sg_venue_id g)) sgs
                 = map (\<lambda>(sc, vid). (py_round sc 4, vid)) (take (nat (top_n req)) scored))
      \<and> 1 \<le> top_n req \<and> top_n req \<le> 10 \<and> top_n req = default_to 3 (p_top_n p)"
proof -
  from parse_SuggestRequest_top_n [OF parse]
  have n: "1 \<le> top_n req" "top_n req \<le> 10" "top_n req = default_to 3 (p_top_n p)" by simp_all
  from rank obtain sim s2 where
    sl: "similarity_layer e (s\<lparr>logs := logs s @ [Info_layer1_passed (length cands)]\<rparr>) req itxt
        (map (\<lambda>c. v_id (venue c)) cands) = Inr (sim, s2)"
    and m: "map (\<lambda>g. (sg_final_score g, sg_venue_id g)) sgs =
       map (\<lambda>(sc, vid). (py_round sc 4, vid))
         (slice_to (scored_list sim
               (get_load_factors s2 (map (\<lambda>c. v_id (venue c)) cands) (date req) (time req))
               (map (\<lambda>c. v_id (venue c)) cands)) (top_n req))"
    by (rule rank_candidates_suggestions)
  define ids where "ids = map (\<lambda>c. v_id (venue c)) cands"
  define lf where "lf = get_load_factors s2 ids (date req) (time req)"
  define scored where "scored = scored_list sim lf ids"
  have b: "0 \<le> default_to 0 (lf vid) \<and> default_to 0 (lf vid) \<le> 1" for vid
    unfolding lf_def by (rule load_factor_bounds)
  have c1: "\<forall>vid \<in> set ids.
                 (default_to 0.5 (sim vid) * (1 + default_to 0 (lf vid) * 0.3), vid) \<in> set scored
                 \<and> 0 \<le> default_to 0 (lf vid) \<and> default_to 0 (lf vid) \<le> 1
                 \<and> 1 + default_to 0 (lf vid) * 0.3 \<le> 1.3"
    using b by (auto simp: scored_def set_scored_list final_score_formula)
  have c2: "\<forall>x \<in> set scored. \<exists>vid \<in> set ids.
                   x = (default_to 0.5 (sim vid) * (1 + default_to 0 (lf vid) * 0.3), vid)"
    by (auto simp: scored_def set_scored_list final_score_formula)
  have c3: "length scored = length ids" by (simp add: scored_def length_scored_list)
  have c4: "sorted scored" by (simp add: scored_def sorted_scored_list)
  then have c5: "sorted (map fst scored)" by (rule sorted_map_fst)
  have c6: "map (\<lambda>g. (sg_final_score g, sg_venue_id g)) sgs
                 = map (\<lambda>(sc, vid). (py_round sc 4, vid)) (take (nat (top_n req)) scored)"
    using m n(1) by (simp add: slice_to_nonneg scored_def lf_def ids_def)
  have body: "let ids = map (\<lambda>c. v_id (venue c)) cands;
              lf = get_load_factors s2 ids (date req) (time req);
              scored = scored_list sim lf ids
          in (\<forall>vid \<in> set ids.
                 (default_to 0.5 (sim vid) * (1 + default_to 0 (lf vid) * 0.3), vid) \<in> set scored
                 \<and> 0 \<le> default_to 0 (lf vid) \<and> default_to 0 (lf vid) \<le> 1
                 \<and> 1 + default_to 0 (lf vid) * 0.3 \<le> 1.3)
             \<and> (\<forall>x \<in> set scored. \<exists>vid \<in> set ids.
                   x = (default_to 0.5 (sim vid) * (1 + default_to 0 (lf vid) * 0.3), vid))
             \<and> length scored = length ids
             \<and> sorted scored \<and> sorted (map fst scored)
             \<and> map (\<lambda>g. (sg_final_score g, sg_venue_id g)) sgs
                 = map (\<lambda>(sc, vid). (py_round sc 4, vid)) (take (nat (top_n req)) scored)"
    unfolding Let_def
    using c1 c2 c3 c4 c5 c6 unfolding scored_def lf_def ids_def
    by (intro conjI)
  show ?thesis
    using sl body n by (intro exI [of _ sim] exI [of _ s2] conjI)
qed

lemma parse_bristol: "parse_SuggestRequest bristol_payload = Inr bristol_request"
  by (simp add: parse_SuggestRequest_def bristol_payload_def bristol_request_def default_to_def)

theorem C1_witness:
  "\<exists>cands s1 sgs itxt s'.
      parse_SuggestRequest bristol_payload = Inr bristol_request
    \<and> suggest_venues sample_env bristol_state bristol_request = Inr ((sgs, itxt), s')
    \<and> rank_candidates sample_env s1 bristol_request itxt
          (suggest_cache_key sample_env bristol_request) cands = Inr ((sgs, itxt), s')
    \<and> map (\<lambda>g. (sg_venue_id g, sg_similarity_score g, sg_load_factor g, sg_final_score g)) sgs
          = [(2, 0.08, 0.8, 0.0992), (1, 0.1, 0, 0.1)]
    \<and> (\<exists>sim s2.
          similarity_layer sample_env (s1\<lparr>logs := logs s1 @ [Info_layer1_passed (length cands)]\<rparr>)
             bristol_request itxt (map (\<lambda>c. v_id (venue c)) cands) = Inr (sim, s2)
        \<and> sorted (map fst (scored_list sim
                (get_load_factors s2 (map (\<lambda>c. v_id (venue c)) cands) wednesday (clock 19 0))
                (map (\<lambda>c. v_id (venue c)) cands)))
        \<and> map (\<lambda>g. (sg_final_score g, sg_venue_id g)) sgs
             = map (\<lambda>(sc, vid). (py_round sc 4, vid))
                 (take 3 (scored_list sim
                    (get_load_factors s2 (map (\<lambda>c. v_id (venue c)) cands) wednesday (clock 19 0))
                    (map (\<lambda>c. v_id (venue c)) cands))))
    \<and> 1 \<le> top_n bristol_request \<and> top_n bristol_request \<le> 10
    \<and> top_n bristol_request = default_to 3 (p_top_n bristol_payload)"
proof -
  from suggest_bristol obtain sgs itxt s' where
    run: "suggest_venues sample_env bristol_state bristol_request = Inr ((sgs, itxt), s')"
    and out: "map (\<lambda>g. (sg_venue_id g, sg_similarity_score g, sg_load_factor g, sg_final_score g)) sgs
          = [(2, 0.08, 0.8, 0.0992), (1, 0.1, 0, 0.1)]"
    by (cases "suggest_venues sample_env bristol_state bristol_request") auto
  have miss: "cache_get sample_env (suggest_cache bristol_state)
                (suggest_cache_key sample_env bristol_request) = None"
    by (simp add: cache_get_def bristol_fields)
  from out have ne: "sgs \<noteq> []" by auto
  from suggest_venues_miss [OF miss run] ne obtain cands s1 where
    rank: "rank_candidates sample_env s1 bristol_request itxt
          (suggest_cache_key sample_env bristol_request) cands = Inr ((sgs, itxt), s')"
    by metis
  from C1_final_score_and_ranking [OF parse_bristol rank] obtain sim s2 where
    sl: "similarity_layer sample_env (s1\<lparr>logs := logs s1 @ [Info_layer1_passed (length cands)]\<rparr>)
             bristol_request itxt (map (\<lambda>c. v_id (venue c)) cands) = Inr (sim, s2)"
    and srt: "sorted (map fst (scored_list sim
                (get_load_factors s2 (map (\<lambda>c. v_id (venue c)) cands) wednesday (clock 19 0))
                (map (\<lambda>c. v_id (venue c)) cands)))"
    and tk: "map (\<lambda>g. (sg_final_score g, sg_venue_id g)) sgs
             = map (\<lambda>(sc, vid). (py_round sc 4, vid))
                 (take 3 (scored_list sim
                    (get_load_factors s2 (map (\<lambda>c. v_id (venue c)) cands) wednesday (clock 19 0))
                    (map (\<lambda>c. v_id (venue c)) cands)))"
    and n: "1 \<le> top_n bristol_request" "top_n bristol_request \<le> 10"
      "top_n bristol_request = default_to 3 (p_top_n bristol_payload)"
    by (auto simp: Let_def bristol_request_fields)
  from sl srt tk have inner: "\<exists>sim s2.
          similarity_layer sample_env (s1\<lparr>logs := logs s1 @ [Info_layer1_passed (length cands)]\<rparr>)
             bristol_request itxt (map (\<lambda>c. v_id (venue c)) cands) = Inr (sim, s2)
        \<and> sorted (map fst (scored_list sim
                (get_load_factors s2 (map (\<lambda>c. v_id (venue c)) cands) wednesday (clock 19 0))
                (map (\<lambda>c. v_id (venue c)) cands)))
        \<and> map (\<lambda>g. (sg_final_score g, sg_venue_id g)) sgs
             = map (\<lambda>(sc, vid). (py_round sc 4, vid))
                 (take 3 (scored_list sim
                    (get_load_factors s2 (map (\<lambda>c. v_id (venue c)) cands) wednesday (clock 19 0))
                    (map (\<lambda>c. v_id (venue c)) cands)))"
    by (intro exI [of _ sim] exI [of _ s2] conjI)
  show ?thesis
    using parse_bristol run rank out inner n
    by (intro exI [of _ cands] exI [of _ s1] exI [of _ sgs] exI [of _ itxt] exI [of _ s'] conjI)
qed

section \<open>Venues without an embedding (C3)\<close>

lemma suggest_venues_no_embeddings:
  assumes miss: "cache_get e (suggest_cache s) (suggest_cache_key e req) = None"
      and hard: "get_hard_filtered_candidates e s (city req) (date req) (time req)
        (origin_lat req) (origin_lng req) (TravelMode_value (travel_mode req))
        (max_travel_minutes req) = Inr (cands, s1)"
      and ne: "cands \<noteq> []"
      and n: "1 \<le> top_n req"
      and un: "\<forall>c \<in> set cands. v_id (venue c) \<notin> ve_venue_id ` set (venue_embeddings s)"
  shows "\<exists>sgs itxt s'. suggest_venues e s req = Inr ((sgs, itxt), s')
           \<and> sgs \<noteq> []
           \<and> (\<forall>g \<in> set sgs. sg_similarity_score g = 1 / 2)
           \<and> Warning_no_embeddings \<in> set (logs s')
           \<and> intent_embeddings s' = intent_embeddings s
           \<and> (\<exists>resp. suggest e s req = Response_200 resp)"
proof -
  define itxt where "itxt = build_intent_text
                  (RelationshipStage_value (stage req)) (Mood_value (mood req))
                  (EnergyLevel_value (energy req)) (BudgetBand_value (budget req))
                  (city req) (default_to [] (free_text req))"
  from hard_filter_embeddings [OF hard]
  have emb: "venue_embeddings s1 = venue_embeddings s"
    and ie: "intent_embeddings s1 = intent_embeddings s" by simp_all
  from un emb have "\<forall>c \<in> set cands. v_id (venue c) \<notin> ve_venue_id ` set (venue_embeddings s1)"
    by simp
  from rank_candidates_no_embeddings [OF this, of e req itxt "suggest_cache_key e req"]
  obtain sgs s' where
    r: "rank_candidates e s1 req itxt (suggest_cache_key e req) cands = Inr ((sgs, itxt), s')"
    and half: "\<forall>g \<in> set sgs. sg_similarity_score g = 1 / 2"
    and lg: "logs s' = logs s1 @ [Info_layer1_passed (length cands), Warning_no_embeddings]"
    and ie': "intent_embeddings s' = intent_embeddings s1"
    by blast
  have run: "suggest_venues e s req = Inr ((sgs, itxt), s')"
    using miss hard ne r unfolding suggest_venues_def Let_def itxt_def by simp
  from rank_candidates_length [OF r] n have "length sgs = min (nat (top_n req)) (length cands)"
    by simp
  with n ne have sne: "sgs \<noteq> []" by (cases cands) auto
  then have "suggest e s req = Response_200 \<lparr>count = length sgs, intent_text = itxt, suggestions = sgs\<rparr>"
    using run by (simp add: suggest_def)
  with run sne half lg ie ie' show ?thesis by auto
qed

text \<open>
  C3. A candidate that has no embedding row gets the similarity 0.5 and stays in the
  scored list (with the score 0.5 * (1 + load * 0.3)); only the cut to top_n shortens
  the result. When no candidate has an embedding, every suggestion carries the
  similarity 0.5, the warning is logged, nothing else fails and the request returns
  its ranked suggestions.
\<close>

theorem C3_missing_embedding_neutral:
  "(similarity_layer e s req itxt ids = Inr (sim, s2) \<longrightarrow>
      (\<forall>vid \<in> set ids. vid \<notin> ve_venue_id ` set (venue_embeddings s) \<longrightarrow>
         sim vid = Some 0.5
         \<and> (0.5 * (1 + default_to 0 (lf vid) * 0.3), vid) \<in> set (scored_list sim lf ids)))
   \<and> (rank_candidates e s req itxt key cands = Inr ((sgs, itxt'), s') \<longrightarrow>
      (\<forall>g \<in> set sgs. sg_venue_id g \<notin> ve_venue_id ` set (venue_embeddings s)
           \<longrightarrow> sg_similarity_score g = 0.5)
      \<and> (0 \<le> top_n req \<longrightarrow> length sgs = min (nat (top_n req)) (length cands)))
   \<and> ((\<forall>c \<in> set cands. v_id (venue c) \<notin> ve_venue_id ` set (venue_embeddings s)) \<longrightarrow>
      (\<exists>sgs s'. rank_candidates e s req itxt key cands = Inr ((sgs, itxt), s')
         \<and> (\<forall>g \<in> set sgs. sg_similarity_score g = 0.5)
         \<and> logs s' = logs s @ [Info_layer1_passed (length cands), Warning_no_embeddings]
         \<and> intent_embeddings s' = intent_embeddings s))
   \<and> (cache_get e (suggest_cache s) (suggest_cache_key e req) = None
       \<and> get_hard_filtered_candidates e s (city req) (date req) (time req)
            (origin_lat req) (origin_lng req) (TravelMode_value (travel_mode req))
            (max_travel_minutes req) = Inr (cands, s1)
       \<and> cands \<noteq> [] \<and> 1 \<le> top_n req
       \<and> (\<forall>c \<in> set cands. v_id (venue c) \<notin> ve_venue_id ` set (venue_embeddings s)) \<longrightarrow>
      (\<exists>sgs itxt s'. suggest_venues e s req = Inr ((sgs, itxt), s')
           \<and> sgs \<noteq> []
           \<and> (\<forall>g \<in> set sgs. sg_similarity_score g = 0.5)
           \<and> Warning_no_embeddings \<in> set (logs s')
           \<and> intent_embeddings s' = intent_embeddings s
           \<and> (\<exists>resp. suggest e s req = Response_200 resp)))"
proof (intro conjI impI ballI)
  fix vid
  assume sl: "similarity_layer e s req itxt ids = Inr (sim, s2)" and mem: "vid \<in> set ids"
    and un: "vid \<notin> ve_venue_id ` set (venue_embeddings s)"
  from similarity_layer_unembedded [OF sl mem un] show h: "sim vid = Some 0.5" by simp
  from mem have "(final_score sim lf vid, vid) \<in> set (scored_list sim lf ids)"
    by (simp add: set_scored_list)
  with h show "(0.5 * (1 + default_to 0 (lf vid) * 0.3), vid) \<in> set (scored_list sim lf ids)"
    by (simp add: final_score_formula default_to_def)
next
  fix g
  assume "rank_candidates e s req itxt key cands = Inr ((sgs, itxt'), s')" "g \<in> set sgs"
    "sg_venue_id g \<notin> ve_venue_id ` set (venue_embeddings s)"
  from rank_candidates_neutral [OF this] show "sg_similarity_score g = 0.5" by simp
next
  assume "rank_candidates e s req itxt key cands = Inr ((sgs, itxt'), s')" "0 \<le> top_n req"
  then show "length sgs = min (nat (top_n req)) (length cands)"
    by (rule rank_candidates_length)
next
  assume "\<forall>c \<in> set cands. v_id (venue c) \<notin> ve_venue_id ` set (venue_embeddings s)"
  from rank_candidates_no_embeddings [OF this, of e req itxt key]
  show "\<exists>sgs s'. rank_candidates e s req itxt key cands = Inr ((sgs, itxt), s')
         \<and> (\<forall>g \<in> set sgs. sg_similarity_score g = 0.5)
         \<and> logs s' = logs s @ [Info_layer1_passed (length cands), Warning_no_embeddings]
         \<and> intent_embeddings s' = intent_embeddings s"
    by simp
next
  assume a: "cache_get e (suggest_cache s) (suggest_cache_key e req) = None
       \<and> get_hard_filtered_candidates e s (city req) (date req) (time req)
            (origin_lat req) (origin_lng req) (TravelMode_value (travel_mode req))
            (max_travel_minutes req) = Inr (cands, s1)
       \<and> cands \<noteq> [] \<and> 1 \<le> top_n req
       \<and> (\<forall>c \<in> set cands. v_id (venue c) \<notin> ve_venue_id ` set (venue_embeddings s))"
  then have "\<exists>sgs itxt s'. suggest_venues e s req = Inr ((sgs, itxt), s')
           \<and> sgs \<noteq> []
           \<and> (\<forall>g \<in> set sgs. sg_similarity_score g = 1 / 2)
           \<and> Warning_no_embeddings \<in> set (logs s')
           \<and> intent_embeddings s' = intent_embeddings s
           \<and> (\<exists>resp. suggest e s req = Response_200 resp)"
    by (elim conjE) (rule suggest_venues_no_embeddings)
  then show "\<exists>sgs itxt s'. suggest_venues e s req = Inr ((sgs, itxt), s')
           \<and> sgs \<noteq> []
           \<and> (\<forall>g \<in> set sgs. sg_similarity_score g = 0.5)
           \<and> Warning_no_embeddings \<in> set (logs s')
           \<and> intent_embeddings s' = intent_embeddings s
           \<and> (\<exists>resp. suggest e s req = Response_200 resp)"
    by simp
qed

lemma load_of_venue_frame_embeddings:
  "load_of_venue (s\<lparr>venue_embeddings := x\<rparr>) = load_of_venue s"
  by (intro ext load_of_venue_cong; simp)

lemma rank_half_embedded:
  "map_sum id (\<lambda>r. map (\<lambda>g. (sg_venue_id g, sg_similarity_score g, sg_load_factor g,
                                 sg_final_score g)) (fst (fst r)))
     (rank_candidates sample_env
        (bristol_state\<lparr>venue_embeddings :=
           [\<lparr>ve_venue_id = 1, ve_embedding = [0.9, 0.3, 0.3, 0.1], ve_source_text = None\<rparr>]\<rparr>)
        bristol_request itxt key
        [\<lparr>venue = venue_A, travel_minutes = Some 10\<rparr>, \<lparr>venue = venue_B, travel_minutes = Some 10\<rparr>])
   = Inr [(1, 0.1, 0, 0.1), (2, 0.5, 0.8, 0.62)]"
  by (simp add: rank_candidates_def similarity_layer_def get_intent_vector_def cache_get_def
        cache_set_def find_similar_venues_def bristol_fields sample_env_fields
        sample_cosine_distance_def dot_def Let_def get_load_factors_def load_bristol
        load_of_venue_frame load_of_venue_frame_embeddings log_intent_embedding_def
        scored_list_def final_score_def
        default_to_def MAX_LOAD_PENALTY_def slice_to_def make_suggestion_def py_round_def
        round_half_even_def venue_AB_fields bristol_request_fields)

theorem C3_witness:
  "(\<exists>sgs itxt s'.
       suggest_venues sample_env availability_state wednesday_request = Inr ((sgs, itxt), s')
     \<and> sgs \<noteq> []
     \<and> map (\<lambda>g. (sg_venue_id g, sg_similarity_score g)) sgs = [(1, 0.5)]
     \<and> Warning_no_embeddings \<in> set (logs s')
     \<and> intent_embeddings s' = []
     \<and> (\<exists>resp. suggest sample_env availability_state wednesday_request = Response_200 resp))
   \<and> (\<exists>sgs itxt' s'.
       rank_candidates sample_env
        (bristol_state\<lparr>venue_embeddings :=
           [\<lparr>ve_venue_id = 1, ve_embedding = [0.9, 0.3, 0.3, 0.1], ve_source_text = None\<rparr>]\<rparr>)
        bristol_request ''intent'' ''key''
        [\<lparr>venue = venue_A, travel_minutes = Some 10\<rparr>, \<lparr>venue = venue_B, travel_minutes = Some 10\<rparr>]
         = Inr ((sgs, itxt'), s')
     \<and> map (\<lambda>g. (sg_venue_id g, sg_similarity_score g, sg_load_factor g, sg_final_score g)) sgs
          = [(1, 0.1, 0, 0.1), (2, 0.5, 0.8, 0.62)]
     \<and> length sgs = 2)"
proof -
  have miss: "cache_get sample_env (suggest_cache availability_state)
                (suggest_cache_key sample_env wednesday_request) = None"
    by (simp add: cache_get_def avail_fields)
  have un: "\<forall>c \<in> set [\<lparr>venue = venue_A, travel_minutes = None\<rparr>].
              v_id (venue c) \<notin> ve_venue_id ` set (venue_embeddings availability_state)"
    by (simp add: avail_fields)
  have hyp: "cache_get sample_env (suggest_cache availability_state)
                (suggest_cache_key sample_env wednesday_request) = None
       \<and> get_hard_filtered_candidates sample_env availability_state (city wednesday_request)
            (date wednesday_request) (time wednesday_request)
            (origin_lat wednesday_request) (origin_lng wednesday_request)
            (TravelMode_value (travel_mode wednesday_request))
            (max_travel_minutes wednesday_request)
           = Inr ([\<lparr>venue = venue_A, travel_minutes = None\<rparr>], availability_state)
       \<and> [\<lparr>venue = venue_A, travel_minutes = None\<rparr>] \<noteq> [] \<and> 1 \<le> top_n wednesday_request
       \<and> (\<forall>c \<in> set [\<lparr>venue = venue_A, travel_minutes = None\<rparr>].
              v_id (venue c) \<notin> ve_venue_id ` set (venue_embeddings availability_state))"
    using miss hard_wednesday un by (simp add: req_fields)
  from C3_missing_embedding_neutral [where e = sample_env and s = availability_state
      and req = wednesday_request and cands = "[\<lparr>venue = venue_A, travel_minutes = None\<rparr>]"
      and ?s1.0 = availability_state, THEN conjunct2, THEN conjunct2, THEN conjunct2, THEN mp, OF hyp]
  obtain sgs itxt s' where
    run: "suggest_venues sample_env availability_state wednesday_request = Inr ((sgs, itxt), s')"
    and ne: "sgs \<noteq> []"
    and w: "Warning_no_embeddings \<in> set (logs s')"
    and ie: "intent_embeddings s' = intent_embeddings availability_state"
    and resp: "\<exists>resp. suggest sample_env availability_state wednesday_request = Response_200 resp"
    by blast
  from suggest_wednesday run
  have out: "map (\<lambda>g. (sg_venue_id g, sg_similarity_score g)) sgs = [(1, 0.5)]"
    by auto
  have first: "\<exists>sgs itxt s'.
       suggest_venues sample_env availability_state wednesday_request = Inr ((sgs, itxt), s')
     \<and> sgs \<noteq> []
     \<and> map (\<lambda>g. (sg_venue_id g, sg_similarity_score g)) sgs = [(1, 0.5)]
     \<and> Warning_no_embeddings \<in> set (logs s')
     \<and> intent_embeddings s' = []
     \<and> (\<exists>resp. suggest sample_env availability_state wednesday_request = Response_200 resp)"
    using run ne out w ie resp
    by (intro exI [of _ sgs] exI [of _ itxt] exI [of _ s'] conjI) (simp_all add: avail_fields)
  from rank_half_embedded [of "''intent''" "''key''"] obtain sgs2 itxt2 s2' where
    r2: "rank_candidates sample_env
        (bristol_state\<lparr>venue_embeddings :=
           [\<lparr>ve_venue_id = 1, ve_embedding = [0.9, 0.3, 0.3, 0.1], ve_source_text = None\<rparr>]\<rparr>)
        bristol_request ''intent'' ''key''
        [\<lparr>venue = venue_A, travel_minutes = Some 10\<rparr>, \<lparr>venue = venue_B, travel_minutes = Some 10\<rparr>]
         = Inr ((sgs2, itxt2), s2')"
    and out2: "map (\<lambda>g. (sg_venue_id g, sg_similarity_score g, sg_load_factor g, sg_final_score g)) sgs2
          = [(1, 0.1, 0, 0.1), (2, 0.5, 0.8, 0.62)]"
    by (cases "rank_candidates sample_env
        (bristol_state\<lparr>venue_embeddings :=
           [\<lparr>ve_venue_id = 1, ve_embedding = [0.9, 0.3, 0.3, 0.1], ve_source_text = None\<rparr>]\<rparr>)
        bristol_request ''intent'' ''key''
        [\<lparr>venue = venue_A, travel_minutes = Some 10\<rparr>, \<lparr>venue = venue_B, travel_minutes = Some 10\<rparr>]")
       auto
  from C3_missing_embedding_neutral [where e = sample_env and req = bristol_request
      and itxt = "''intent''" and key = "''key''" and sgs = sgs2 and itxt' = itxt2 and s' = s2'
      and cands = "[\<lparr>venue = venue_A, travel_minutes = Some 10\<rparr>, \<lparr>venue = venue_B, travel_minutes = Some 10\<rparr>]"
      and s = "bristol_state\<lparr>venue_embeddings :=
           [\<lparr>ve_venue_id = 1, ve_embedding = [0.9, 0.3, 0.3, 0.1], ve_source_text = None\<rparr>]\<rparr>",
      THEN conjunct2, THEN conjunct1, THEN mp, OF r2]
  have len: "length sgs2 = 2"
    by (simp add: bristol_request_fields)
  have second: "\<exists>sgs itxt' s'.
       rank_candidates sample_env
        (bristol_state\<lparr>venue_embeddings :=
           [\<lparr>ve_venue_id = 1, ve_embedding = [0.9, 0.3, 0.3, 0.1], ve_source_text = None\<rparr>]\<rparr>)
        bristol_request ''intent'' ''key''
        [\<lparr>venue = venue_A, travel_minutes = Some 10\<rparr>, \<lparr>venue = venue_B, travel_minutes = Some 10\<rparr>]
         = Inr ((sgs, itxt'), s')
     \<and> map (\<lambda>g. (sg_venue_id g, sg_similarity_score g, sg_load_factor g, sg_final_score g)) sgs
          = [(1, 0.1, 0, 0.1), (2, 0.5, 0.8, 0.62)]
     \<and> length sgs = 2"
    using r2 out2 len by (intro exI [of _ sgs2] exI [of _ itxt2] exI [of _ s2'] conjI)
  from first second show ?thesis by (rule conjI)
qed

section \<open>Equal similarity and different load (C6)\<close>












section \<open>Failures of the travel-time resolution (C4)\<close>











section \<open>Unknown provider names (C7)\<close>





























section \<open>The cache key of a request without an origin (C10)\<close>



















section \<open>Venues with a zero coordinate (C9)\<close>











section \<open>The intent log (C8)\<close>








lemma log_intent_embedding_tables:
  "venue_slots (log_intent_embedding e s sid itxt v) = venue_slots s"
  "bookings (log_intent_embedding e s sid itxt v) = bookings s"
  "venue_embeddings (log_intent_embedding e s sid itxt v) = venue_embeddings s"
  "suggest_cache (log_intent_embedding e s sid itxt v) = suggest_cache s"
  by (simp_all add: log_intent_embedding_def)


















end
